theory Spec2Isabelle
  imports Main "HOL-Library.Word"
begin

unbundle bit_operations_syntax

section \<open>Types shared with the external collaborators\<close>

text \<open>
  \<^verbatim>\<open>Renderer.hpp\<close> is the only file of the driver at hand. The rasterizer, the bus
  connector, the vector types, the API enumerations and the display list are included by
  it; what the driver needs of them is modelled here from the specification and marked
  so.
\<close>

type_synonym SCT = "16 word"

text \<open>A \<^verbatim>\<open>const uint16_t*\<close>: the address of a pixel, counted in pixels, so that pointer
  arithmetic on it is addition. The null pointer is 0.\<close>

type_synonym pixel_ptr = int

text \<open>Modelled from the spec: \<^verbatim>\<open>RasterizedTriangle\<close> is an opaque record of the rasterizer
  (\<^verbatim>\<open>Rasterizer.hpp\<close> is missing). The driver writes its field
  \<^verbatim>\<open>triangleStaticColor\<close>; everything else is the type parameter \<open>'g\<close>.\<close>

record 'g RasterizedTriangle =
  triangleStaticColor :: "16 word"
  geometry :: 'g

text \<open>Modelled from the spec: \<^verbatim>\<open>Vec4i\<close> (\<^verbatim>\<open>Vec.hpp\<close> is missing) holds four 32 bit signed
  channels, indexed 0 to 3, and \<^verbatim>\<open>>>=\<close> shifts every channel right, arithmetically.\<close>

datatype Vec4i = Vec4i "32 word" "32 word" "32 word" "32 word"

fun vec_at :: "Vec4i \<Rightarrow> nat \<Rightarrow> 32 word" where
  "vec_at (Vec4i c0 c1 c2 c3) i =
     (if i = 0 then c0 else if i = 1 then c1 else if i = 2 then c2 else c3)"

fun vec_shr :: "Vec4i \<Rightarrow> nat \<Rightarrow> Vec4i" where
  "vec_shr (Vec4i c0 c1 c2 c3) n =
     Vec4i (signed_drop_bit n c0) (signed_drop_bit n c1)
           (signed_drop_bit n c2) (signed_drop_bit n c3)"

text \<open>Modelled from the spec: the enumerations of \<^verbatim>\<open>IRenderer.hpp\<close> (missing) are given by
  their numeric encodings, which fit the widths of the bit fields that store them. The
  two arguments that \<^verbatim>\<open>setTexEnv\<close> ignores and the logic op are plain numbers.\<close>

type_synonym TestFunc = "3 word"
type_synonym TexEnvParam = "3 word"
type_synonym BlendFunc = "4 word"
type_synonym TexEnvTarget = nat
type_synonym TexEnvParamName = nat
type_synonym LogicOp = nat

datatype TextureWrapMode = CLAMP_TO_EDGE | OTHER_WRAP_MODE nat

section \<open>Configuration\<close>

text \<open>
  The template parameters of \<^verbatim>\<open>Renderer\<close>, the two \<^verbatim>\<open>sizeof\<close> values that depend on
  the platform, and the two functions of the rasterizer the driver calls.
  Modelled from the spec: \<^verbatim>\<open>rasterize\<close> fills a triangle and returns true, or
  returns false for a triangle outside the view volume (here: \<open>None\<close>);
  \<^verbatim>\<open>calcLineIncrement\<close> specialises the triangle it is given to the band from
  \<open>y_start\<close> to \<open>y_end\<close>, writes the result to its out parameter and returns whether the
  triangle touches the band (here: the flag and what the out parameter holds after the
  call).
\<close>

record ('v4, 'v2, 'g) config =
  DISPLAY_LIST_SIZE :: nat
  DISPLAY_LINES :: "16 word"
  LINE_RESOLUTION :: "16 word"
  BUS_WIDTH :: nat
  sizeof_RasterizedTriangle :: nat
  sizeof_TextureStreamArg :: nat
  rasterize :: "'v4 \<Rightarrow> 'v2 \<Rightarrow> 'v4 \<Rightarrow> 'v2 \<Rightarrow> 'v4 \<Rightarrow> 'v2 \<Rightarrow> 'g RasterizedTriangle option"
  calcLineIncrement ::
    "'g RasterizedTriangle \<Rightarrow> 16 word \<Rightarrow> 16 word \<Rightarrow> bool \<times> 'g RasterizedTriangle"

definition HARDWARE_BUFFER_SIZE :: nat where
  "HARDWARE_BUFFER_SIZE = 2048"

definition ALIGN :: "('v4, 'v2, 'g) config \<Rightarrow> nat" where
  "ALIGN c = BUS_WIDTH c div 8"

text \<open>The types the driver stores in a display list.\<close>

datatype ctype =
  T_SCT | T_uint16 | T_ConfReg1 | T_ConfReg2 | T_TextureStreamArg | T_RasterizedTriangle

fun sizeof :: "('v4, 'v2, 'g) config \<Rightarrow> ctype \<Rightarrow> nat" where
  "sizeof c T_SCT = 2"
| "sizeof c T_uint16 = 2"
| "sizeof c T_ConfReg1 = 2"
| "sizeof c T_ConfReg2 = 2"
| "sizeof c T_TextureStreamArg = sizeof_TextureStreamArg c"
| "sizeof c T_RasterizedTriangle = sizeof_RasterizedTriangle c"

text \<open>Modelled from the spec (\<^verbatim>\<open>DisplayList.hpp\<close> is missing): the size of a type rounded
  up to the alignment. An alignment of 0 (a bus narrower than 8 bits, which the C++
  compiler rejects) pads nothing.\<close>

definition round_up :: "nat \<Rightarrow> nat \<Rightarrow> nat" where
  "round_up a n = (if a = 0 \<or> n mod a = 0 then n else n + (a - n mod a))"

definition sizeOf :: "('v4, 'v2, 'g) config \<Rightarrow> ctype \<Rightarrow> nat" where
  "sizeOf c T = round_up (ALIGN c) (sizeof c T)"

section \<open>Stream commands\<close>

definition STREAM_COMMAND_OP_MASK :: SCT where "STREAM_COMMAND_OP_MASK = 0xf000"
definition STREAM_COMMAND_IMM_MASK :: SCT where "STREAM_COMMAND_IMM_MASK = 0x0fff"

definition TRIANGLE_SIZE_ALIGNED :: "('v4, 'v2, 'g) config \<Rightarrow> SCT" where
  "TRIANGLE_SIZE_ALIGNED c = of_nat (sizeOf c T_RasterizedTriangle)"

definition NOP :: SCT where "NOP = 0x0000"
definition TEXTURE_STREAM :: SCT where "TEXTURE_STREAM = 0x1000"
definition SET_REG :: SCT where "SET_REG = 0x2000"
definition FRAMEBUFFER_OP :: SCT where "FRAMEBUFFER_OP = 0x3000"
definition TRIANGLE_STREAM :: SCT where "TRIANGLE_STREAM = 0x4000"

definition TEXTURE_STREAM_32x32 :: SCT where
  "TEXTURE_STREAM_32x32 = TEXTURE_STREAM OR 0x0011"
definition TEXTURE_STREAM_64x64 :: SCT where
  "TEXTURE_STREAM_64x64 = TEXTURE_STREAM OR 0x0022"
definition TEXTURE_STREAM_128x128 :: SCT where
  "TEXTURE_STREAM_128x128 = TEXTURE_STREAM OR 0x0044"
definition TEXTURE_STREAM_256x256 :: SCT where
  "TEXTURE_STREAM_256x256 = TEXTURE_STREAM OR 0x0088"

definition SET_COLOR_BUFFER_CLEAR_COLOR :: SCT where
  "SET_COLOR_BUFFER_CLEAR_COLOR = SET_REG OR 0x0000"
definition SET_DEPTH_BUFFER_CLEAR_DEPTH :: SCT where
  "SET_DEPTH_BUFFER_CLEAR_DEPTH = SET_REG OR 0x0001"
definition SET_CONF_REG1 :: SCT where "SET_CONF_REG1 = SET_REG OR 0x0002"
definition SET_CONF_REG2 :: SCT where "SET_CONF_REG2 = SET_REG OR 0x0003"
definition SET_TEX_ENV_COLOR :: SCT where "SET_TEX_ENV_COLOR = SET_REG OR 0x0004"

definition FRAMEBUFFER_COMMIT :: SCT where "FRAMEBUFFER_COMMIT = FRAMEBUFFER_OP OR 0x0001"
definition FRAMEBUFFER_MEMSET :: SCT where "FRAMEBUFFER_MEMSET = FRAMEBUFFER_OP OR 0x0002"
definition FRAMEBUFFER_COLOR :: SCT where "FRAMEBUFFER_COLOR = FRAMEBUFFER_OP OR 0x0010"
definition FRAMEBUFFER_DEPTH :: SCT where "FRAMEBUFFER_DEPTH = FRAMEBUFFER_OP OR 0x0020"

definition TRIANGLE_FULL :: "('v4, 'v2, 'g) config \<Rightarrow> SCT" where
  "TRIANGLE_FULL c = TRIANGLE_STREAM OR TRIANGLE_SIZE_ALIGNED c"

record TextureStreamArg =
  pixels :: pixel_ptr
  remainingPixels :: int

section \<open>Colour packing\<close>

text \<open>\<^verbatim>\<open>convertColor\<close>: every channel is shifted right by 4 and cast to
  \<^verbatim>\<open>uint16_t\<close>; the shifts to the left and the ors are computed in \<^verbatim>\<open>int\<close> (32 bits)
  and the result is cut to 16 bits.\<close>

definition convertColor :: "Vec4i \<Rightarrow> 16 word" where
  "convertColor color =
     (let colorShift = vec_shr color 4;
          colorInt :: 32 word =
             push_bit 0 (ucast (ucast (vec_at colorShift 3) :: 16 word))
          OR push_bit 4 (ucast (ucast (vec_at colorShift 2) :: 16 word))
          OR push_bit 8 (ucast (ucast (vec_at colorShift 1) :: 16 word))
          OR push_bit 12 (ucast (ucast (vec_at colorShift 0) :: 16 word))
      in ucast colorInt)"

section \<open>Display list\<close>

text \<open>
  Modelled from the spec: \<^verbatim>\<open>DisplayList.hpp\<close> is missing. A display list is a byte
  arena with a write position, a read position and a state. The arena is kept as typed
  memory: \<open>storage dl p\<close> is the value written at byte offset \<open>p\<close>. \<open>create\<close> reserves
  the aligned size of a type and returns the offset of the reserved bytes (the pointer)
  or \<open>None\<close> (the null pointer); a value is written through the pointer with \<open>store\<close>.
\<close>

datatype State = FREE | QUEUED | TRANSFERRING

datatype 'g cell =
  Unset | Op SCT | U16 "16 word" | Tri "'g RasterizedTriangle" | Tex TextureStreamArg

record 'g DisplayList =
  storage :: "nat \<Rightarrow> 'g cell"
  write_pos :: nat
  read_pos :: nat
  state :: State

text \<open>What the C++ leaves undefined: a null pointer that is dereferenced, a record of
  the list read as a type other than the one written, an operation called outside of
  what it requires.\<close>

datatype fault = NullPointer | Misread | RequireFailed

definition create ::
  "('v4, 'v2, 'g) config \<Rightarrow> nat \<Rightarrow> ctype \<Rightarrow> 'g DisplayList \<Rightarrow> nat option \<times> 'g DisplayList"
where
  "create c capacity T dl =
     (if write_pos dl + sizeOf c T \<le> capacity
      then (Some (write_pos dl), dl\<lparr>write_pos := write_pos dl + sizeOf c T\<rparr>)
      else (None, dl))"

definition store :: "nat \<Rightarrow> 'g cell \<Rightarrow> 'g DisplayList \<Rightarrow> 'g DisplayList" where
  "store p v dl = dl\<lparr>storage := (storage dl)(p := v)\<rparr>"

text \<open>\<open>remove\<close> rolls the write position back by the aligned size of the type. It is
  only called after a \<open>create\<close> of the same type that succeeded, so the subtraction
  never passes 0.\<close>

definition dl_remove ::
  "('v4, 'v2, 'g) config \<Rightarrow> ctype \<Rightarrow> 'g DisplayList \<Rightarrow> 'g DisplayList"
where
  "dl_remove c T dl = dl\<lparr>write_pos := write_pos dl - sizeOf c T\<rparr>"

definition getNext ::
  "('v4, 'v2, 'g) config \<Rightarrow> ctype \<Rightarrow> 'g DisplayList \<Rightarrow> nat option \<times> 'g DisplayList"
where
  "getNext c T dl =
     (if read_pos dl + sizeOf c T \<le> write_pos dl
      then (Some (read_pos dl), dl\<lparr>read_pos := read_pos dl + sizeOf c T\<rparr>)
      else (None, dl))"

definition resetGet :: "'g DisplayList \<Rightarrow> 'g DisplayList" where
  "resetGet dl = dl\<lparr>read_pos := 0\<rparr>"

definition atEnd :: "'g DisplayList \<Rightarrow> bool" where
  "atEnd dl = (read_pos dl = write_pos dl)"

definition dl_clear :: "'g DisplayList \<Rightarrow> 'g DisplayList" where
  "dl_clear dl = dl\<lparr>read_pos := 0, write_pos := 0, state := FREE\<rparr>"

definition enqueue :: "'g DisplayList \<Rightarrow> fault + 'g DisplayList" where
  "enqueue dl = (if state dl = FREE then Inr (dl\<lparr>state := QUEUED\<rparr>) else Inl RequireFailed)"

definition transfer :: "'g DisplayList \<Rightarrow> fault + 'g DisplayList" where
  "transfer dl =
     (if state dl = QUEUED then Inr (dl\<lparr>state := TRANSFERRING\<rparr>) else Inl RequireFailed)"

text \<open>The free space is the capacity less the write position, which never exceeds the
  capacity.\<close>

definition getFreeSpace :: "nat \<Rightarrow> 'g DisplayList \<Rightarrow> nat" where
  "getFreeSpace capacity dl = capacity - write_pos dl"

definition getSize :: "'g DisplayList \<Rightarrow> nat" where
  "getSize dl = write_pos dl"

definition getMemPtr :: "'g DisplayList \<Rightarrow> nat \<Rightarrow> 'g cell" where
  "getMemPtr dl = storage dl"

section \<open>Bus connector\<close>

text \<open>
  Modelled from the spec: \<^verbatim>\<open>IBusConnector.hpp\<close> is missing. The bus is outside of the
  driver, so what \<^verbatim>\<open>clearToSend\<close> answers is given from outside: \<open>clear_answers b n\<close>
  is the answer to poll number \<open>n\<close>. The calls that hand data to the bus are recorded in
  order.
\<close>

datatype 'g bus_data = HostPixels pixel_ptr | ListMemory "nat \<Rightarrow> 'g cell"

datatype 'g bus_call = WriteData "'g bus_data" nat | StartColorBufferTransfer "32 word"

record 'g IBusConnector =
  clear_answers :: "nat \<Rightarrow> bool"
  polls :: nat
  calls :: "'g bus_call list"

definition clearToSend :: "'g IBusConnector \<Rightarrow> bool \<times> 'g IBusConnector" where
  "clearToSend b = (clear_answers b (polls b), b\<lparr>polls := Suc (polls b)\<rparr>)"

definition writeData :: "'g bus_data \<Rightarrow> nat \<Rightarrow> 'g IBusConnector \<Rightarrow> 'g IBusConnector" where
  "writeData d n b = b\<lparr>calls := calls b @ [WriteData d n]\<rparr>"

definition startColorBufferTransfer :: "32 word \<Rightarrow> 'g IBusConnector \<Rightarrow> 'g IBusConnector" where
  "startColorBufferTransfer i b = b\<lparr>calls := calls b @ [StartColorBufferTransfer i]\<rparr>"

section \<open>Configuration registers\<close>

record ConfReg1 =
  enableDepthTest :: bool
  depthFunc :: TestFunc
  alphaFunc :: TestFunc
  referenceAlphaValue :: "4 word"
  depthMask :: bool
  colorMaskA :: bool
  colorMaskB :: bool
  colorMaskG :: bool
  colorMaskR :: bool

text \<open>The fields of \<^verbatim>\<open>ConfReg2\<close> take 14 of the 16 bits of the packed struct. The two
  bits that are left belong to the object all the same: no field names them, no
  assignment to a field changes them and the constructor does not set them, and a copy
  of the struct copies them. They are the field \<open>padding\<close> here.\<close>

record ConfReg2 =
  perspectiveCorrectedTextures :: bool
  texEnvFunc :: TexEnvParam
  blendFuncSFactor :: BlendFunc
  blendFuncDFactor :: BlendFunc
  texClampS :: bool
  texClampT :: bool
  padding :: "2 word"

text \<open>Modelled from the spec: the 16 bits of a packed register, its fields in the order
  of their declaration from the least significant bit. This is the value the walker
  reads when it takes the payload of a \<^verbatim>\<open>SET_REG\<close> command as \<^verbatim>\<open>uint16_t\<close>. The
  fields of \<^verbatim>\<open>ConfReg1\<close> fill the 16 bits; in \<^verbatim>\<open>ConfReg2\<close> the bits 14 and 15 are the
  padding, copied as it stands.\<close>

definition packConfReg1 :: "ConfReg1 \<Rightarrow> 16 word" where
  "packConfReg1 r =
        of_bool (enableDepthTest r)
     OR push_bit 1 (ucast (depthFunc r))
     OR push_bit 4 (ucast (alphaFunc r))
     OR push_bit 7 (ucast (referenceAlphaValue r))
     OR push_bit 11 (of_bool (depthMask r))
     OR push_bit 12 (of_bool (colorMaskA r))
     OR push_bit 13 (of_bool (colorMaskB r))
     OR push_bit 14 (of_bool (colorMaskG r))
     OR push_bit 15 (of_bool (colorMaskR r))"

definition packConfReg2 :: "ConfReg2 \<Rightarrow> 16 word" where
  "packConfReg2 r =
        of_bool (perspectiveCorrectedTextures r)
     OR push_bit 1 (ucast (texEnvFunc r))
     OR push_bit 4 (ucast (blendFuncSFactor r))
     OR push_bit 8 (ucast (blendFuncDFactor r))
     OR push_bit 12 (of_bool (texClampS r))
     OR push_bit 13 (of_bool (texClampT r))
     OR push_bit 14 (ucast (padding r))"

section \<open>The renderer\<close>

text \<open>The members of \<^verbatim>\<open>Renderer\<close>. The array of the two frame lists is a function of
  the index; the two indices only ever hold 0 and 1.\<close>

record 'g Renderer =
  m_displayList :: "8 word \<Rightarrow> 'g DisplayList"
  m_displayListUpload :: "'g DisplayList"
  m_frontList :: "8 word"
  m_backList :: "8 word"
  m_uploadIndexPosition :: "32 word"
  m_textureStreamArg :: TextureStreamArg
  m_busConnector :: "'g IBusConnector"
  m_staticTriangleColor :: "16 word"
  m_confReg1 :: ConfReg1
  m_confReg2 :: ConfReg2

definition frontList :: "'g Renderer \<Rightarrow> 'g DisplayList" where
  "frontList s = m_displayList s (m_frontList s)"

definition backList :: "'g Renderer \<Rightarrow> 'g DisplayList" where
  "backList s = m_displayList s (m_backList s)"

definition set_list :: "8 word \<Rightarrow> 'g DisplayList \<Rightarrow> 'g Renderer \<Rightarrow> 'g Renderer" where
  "set_list i dl s = s\<lparr>m_displayList := (m_displayList s)(i := dl)\<rparr>"

subsection \<open>Appending a command and its argument\<close>

text \<open>\<^verbatim>\<open>appendStreamCommand(displayList, op, arg)\<close>: both records are created first; when
  one of the two pointers is null, the record that was created is removed and nothing
  is written.\<close>

definition appendStreamCommand ::
  "('v4, 'v2, 'g) config \<Rightarrow> nat \<Rightarrow> 'g DisplayList \<Rightarrow> SCT \<Rightarrow> ctype \<Rightarrow> 'g cell
     \<Rightarrow> bool \<times> 'g DisplayList"
where
  "appendStreamCommand c capacity displayList op TArg arg =
     (case create c capacity T_SCT displayList of (opDl, dl1) \<Rightarrow>
      case create c capacity TArg dl1 of (argDl, dl2) \<Rightarrow>
        (case (opDl, argDl) of
           (Some p, Some q) \<Rightarrow> (True, store q arg (store p (Op op) dl2))
         | _ \<Rightarrow>
           (let dl3 = (if opDl \<noteq> None then dl_remove c T_SCT dl2 else dl2);
                dl4 = (if argDl \<noteq> None then dl_remove c TArg dl3 else dl3)
            in (False, dl4))))"

text \<open>\<^verbatim>\<open>appendStreamCommand(op, arg)\<close>: the same on the back list.\<close>

definition appendStreamCommandBack ::
  "('v4, 'v2, 'g) config \<Rightarrow> SCT \<Rightarrow> ctype \<Rightarrow> 'g cell \<Rightarrow> 'g Renderer \<Rightarrow> bool \<times> 'g Renderer"
where
  "appendStreamCommandBack c op TArg arg s =
     (case appendStreamCommand c (DISPLAY_LIST_SIZE c) (backList s) op TArg arg of
        (r, dl) \<Rightarrow> (r, set_list (m_backList s) dl s))"

definition hasEnoughSpace ::
  "('v4, 'v2, 'g) config \<Rightarrow> nat \<Rightarrow> 'g DisplayList \<Rightarrow> bool"
where
  "hasEnoughSpace c capacity displayList =
     (getFreeSpace capacity displayList \<ge> sizeOf c T_SCT + sizeOf c T_RasterizedTriangle)"

subsection \<open>The encoder\<close>

definition useTexture ::
  "('v4, 'v2, 'g) config \<Rightarrow> pixel_ptr \<Rightarrow> 16 word \<Rightarrow> 16 word \<Rightarrow> 'g Renderer
     \<Rightarrow> bool \<times> 'g Renderer"
where
  "useTexture c pxs texWidth texHeight s =
     (if texWidth \<noteq> texHeight then (False, s)
      else
        (case (if texWidth = 256 then Some TEXTURE_STREAM_256x256
               else if texWidth = 128 then Some TEXTURE_STREAM_128x128
               else if texWidth = 64 then Some TEXTURE_STREAM_64x64
               else if texWidth = 32 then Some TEXTURE_STREAM_32x32
               else None) of
           None \<Rightarrow> (False, s)
         | Some op \<Rightarrow>
             (let tsa = \<lparr>pixels = pxs, remainingPixels = uint texWidth * uint texHeight\<rparr>
              in appendStreamCommandBack c op T_TextureStreamArg (Tex tsa) s)))"

definition clear :: "('v4, 'v2, 'g) config \<Rightarrow> bool \<Rightarrow> bool \<Rightarrow> 'g Renderer \<Rightarrow> bool \<times> 'g Renderer"
where
  "clear c colorBuffer depthBuffer s =
     (let opColorBuffer = FRAMEBUFFER_MEMSET OR FRAMEBUFFER_COLOR;
          opDepthBuffer = FRAMEBUFFER_MEMSET OR FRAMEBUFFER_DEPTH
      in case create c (DISPLAY_LIST_SIZE c) T_SCT (backList s) of
           (Some p, dl) \<Rightarrow>
             (let v = (if colorBuffer \<and> depthBuffer then opColorBuffer OR opDepthBuffer
                       else if colorBuffer then opColorBuffer
                       else if depthBuffer then opDepthBuffer
                       else NOP)
              in (True, set_list (m_backList s) (store p (Op v) dl) s))
         | (None, dl) \<Rightarrow> (False, set_list (m_backList s) dl s))"

definition setClearColor ::
  "('v4, 'v2, 'g) config \<Rightarrow> Vec4i \<Rightarrow> 'g Renderer \<Rightarrow> bool \<times> 'g Renderer"
where
  "setClearColor c color s =
     appendStreamCommandBack c SET_COLOR_BUFFER_CLEAR_COLOR T_uint16 (U16 (convertColor color)) s"

definition setClearDepth ::
  "('v4, 'v2, 'g) config \<Rightarrow> 16 word \<Rightarrow> 'g Renderer \<Rightarrow> bool \<times> 'g Renderer"
where
  "setClearDepth c depth s =
     appendStreamCommandBack c SET_DEPTH_BUFFER_CLEAR_DEPTH T_uint16 (U16 depth) s"

definition appendConfReg1 ::
  "('v4, 'v2, 'g) config \<Rightarrow> 'g Renderer \<Rightarrow> bool \<times> 'g Renderer"
where
  "appendConfReg1 c s =
     appendStreamCommandBack c SET_CONF_REG1 T_ConfReg1 (U16 (packConfReg1 (m_confReg1 s))) s"

definition appendConfReg2 ::
  "('v4, 'v2, 'g) config \<Rightarrow> 'g Renderer \<Rightarrow> bool \<times> 'g Renderer"
where
  "appendConfReg2 c s =
     appendStreamCommandBack c SET_CONF_REG2 T_ConfReg2 (U16 (packConfReg2 (m_confReg2 s))) s"

definition setDepthMask ::
  "('v4, 'v2, 'g) config \<Rightarrow> bool \<Rightarrow> 'g Renderer \<Rightarrow> bool \<times> 'g Renderer"
where
  "setDepthMask c flag s =
     appendConfReg1 c (s\<lparr>m_confReg1 := (m_confReg1 s)\<lparr>depthMask := flag\<rparr>\<rparr>)"

definition enableDepthTest' ::
  "('v4, 'v2, 'g) config \<Rightarrow> bool \<Rightarrow> 'g Renderer \<Rightarrow> bool \<times> 'g Renderer"
where
  "enableDepthTest' c enable s =
     appendConfReg1 c (s\<lparr>m_confReg1 := (m_confReg1 s)\<lparr>enableDepthTest := enable\<rparr>\<rparr>)"

definition setColorMask ::
  "('v4, 'v2, 'g) config \<Rightarrow> bool \<Rightarrow> bool \<Rightarrow> bool \<Rightarrow> bool \<Rightarrow> 'g Renderer
     \<Rightarrow> bool \<times> 'g Renderer"
where
  "setColorMask c r g b a s =
     appendConfReg1 c
       (s\<lparr>m_confReg1 :=
            (m_confReg1 s)\<lparr>colorMaskA := a, colorMaskB := b, colorMaskG := g, colorMaskR := r\<rparr>\<rparr>)"

definition setDepthFunc ::
  "('v4, 'v2, 'g) config \<Rightarrow> TestFunc \<Rightarrow> 'g Renderer \<Rightarrow> bool \<times> 'g Renderer"
where
  "setDepthFunc c func s =
     appendConfReg1 c (s\<lparr>m_confReg1 := (m_confReg1 s)\<lparr>depthFunc := func\<rparr>\<rparr>)"

definition setAlphaFunc ::
  "('v4, 'v2, 'g) config \<Rightarrow> TestFunc \<Rightarrow> 8 word \<Rightarrow> 'g Renderer \<Rightarrow> bool \<times> 'g Renderer"
where
  "setAlphaFunc c func ref s =
     appendConfReg1 c
       (s\<lparr>m_confReg1 := (m_confReg1 s)\<lparr>alphaFunc := func, referenceAlphaValue := ucast ref\<rparr>\<rparr>)"

definition setTexEnv ::
  "('v4, 'v2, 'g) config \<Rightarrow> TexEnvTarget \<Rightarrow> TexEnvParamName \<Rightarrow> TexEnvParam \<Rightarrow> 'g Renderer
     \<Rightarrow> bool \<times> 'g Renderer"
where
  "setTexEnv c target pname param s =
     appendConfReg2 c (s\<lparr>m_confReg2 := (m_confReg2 s)\<lparr>texEnvFunc := param\<rparr>\<rparr>)"

definition setBlendFunc ::
  "('v4, 'v2, 'g) config \<Rightarrow> BlendFunc \<Rightarrow> BlendFunc \<Rightarrow> 'g Renderer \<Rightarrow> bool \<times> 'g Renderer"
where
  "setBlendFunc c sfactor dfactor s =
     appendConfReg2 c
       (s\<lparr>m_confReg2 :=
            (m_confReg2 s)\<lparr>blendFuncSFactor := sfactor, blendFuncDFactor := dfactor\<rparr>\<rparr>)"

definition setLogicOp ::
  "('v4, 'v2, 'g) config \<Rightarrow> LogicOp \<Rightarrow> 'g Renderer \<Rightarrow> bool \<times> 'g Renderer"
where
  "setLogicOp c opcode s = (False, s)"

definition setTexEnvColor ::
  "('v4, 'v2, 'g) config \<Rightarrow> Vec4i \<Rightarrow> 'g Renderer \<Rightarrow> bool \<times> 'g Renderer"
where
  "setTexEnvColor c color s =
     appendStreamCommandBack c SET_TEX_ENV_COLOR T_uint16 (U16 (convertColor color)) s"

definition setTextureWrapModeS ::
  "('v4, 'v2, 'g) config \<Rightarrow> TextureWrapMode \<Rightarrow> 'g Renderer \<Rightarrow> bool \<times> 'g Renderer"
where
  "setTextureWrapModeS c mode s =
     appendConfReg2 c
       (s\<lparr>m_confReg2 := (m_confReg2 s)\<lparr>texClampS := (mode = CLAMP_TO_EDGE)\<rparr>\<rparr>)"

definition setTextureWrapModeT ::
  "('v4, 'v2, 'g) config \<Rightarrow> TextureWrapMode \<Rightarrow> 'g Renderer \<Rightarrow> bool \<times> 'g Renderer"
where
  "setTextureWrapModeT c mode s =
     appendConfReg2 c
       (s\<lparr>m_confReg2 := (m_confReg2 s)\<lparr>texClampT := (mode = CLAMP_TO_EDGE)\<rparr>\<rparr>)"

section \<open>Band walker and uploader\<close>

text \<open>The upload list is a display list of the capacity of the hardware buffer.\<close>

definition set_upload :: "'g DisplayList \<Rightarrow> 'g Renderer \<Rightarrow> 'g Renderer" where
  "set_upload dl s = s\<lparr>m_displayListUpload := dl\<rparr>"

definition PIXEL_INC :: int where
  "PIXEL_INC = 1024"

text \<open>The cases of the switch in the fill loop of \<^verbatim>\<open>uploadDisplayList\<close>. Each gives
  the flag \<^verbatim>\<open>leaveLoop\<close> and the new state.\<close>

text \<open>\<^verbatim>\<open>case StreamCommand::TRIANGLE_STREAM\<close>: the triangle is taken from the front list,
  a triangle is created in the upload list and \<^verbatim>\<open>calcLineIncrement\<close> writes to it; when
  it returns false, the triangle and the opcode are removed from the upload list.\<close>

definition case_TRIANGLE_STREAM ::
  "('v4, 'v2, 'g) config \<Rightarrow> 'g Renderer \<Rightarrow> fault + (bool \<times> 'g Renderer)"
where
  "case_TRIANGLE_STREAM c s =
     (case getNext c T_RasterizedTriangle (frontList s) of (triangleConf, fl) \<Rightarrow>
      case create c HARDWARE_BUFFER_SIZE T_RasterizedTriangle (m_displayListUpload s) of
        (triangleConfDl, up) \<Rightarrow>
      (case (triangleConf, triangleConfDl) of
         (Some tp, Some tq) \<Rightarrow>
           (case storage fl tp of
              Tri tin \<Rightarrow>
                (let currentScreenPositionStart :: 16 word =
                       ucast (m_uploadIndexPosition s * ucast (LINE_RESOLUTION c));
                     currentScreenPositionEnd :: 16 word =
                       ucast ((m_uploadIndexPosition s + 1) * ucast (LINE_RESOLUTION c));
                     res = calcLineIncrement c tin currentScreenPositionStart
                             currentScreenPositionEnd;
                     s1 = set_upload (store tq (Tri (snd res)) up)
                            (set_list (m_frontList s) fl s)
                 in if \<not> fst res
                    then Inr (False,
                           set_upload
                             (dl_remove c T_SCT
                                (dl_remove c T_RasterizedTriangle (m_displayListUpload s1)))
                             s1)
                    else Inr (False, s1))
            | _ \<Rightarrow> Inl Misread)
       | _ \<Rightarrow> Inl NullPointer))"

text \<open>\<^verbatim>\<open>case StreamCommand::TEXTURE_STREAM\<close>: the argument of the front list replaces the
  cursor \<^verbatim>\<open>m_textureStreamArg\<close>. When it ends where the old cursor stands, the cursor
  is moved to its end and the opcode is removed from the upload list; otherwise the loop
  is left.\<close>

definition case_TEXTURE_STREAM ::
  "('v4, 'v2, 'g) config \<Rightarrow> 'g Renderer \<Rightarrow> fault + (bool \<times> 'g Renderer)"
where
  "case_TEXTURE_STREAM c s =
     (let curr = m_textureStreamArg s in
      case getNext c T_TextureStreamArg (frontList s) of
        (None, fl) \<Rightarrow> Inl NullPointer
      | (Some p, fl) \<Rightarrow>
        (case storage fl p of
           Tex new \<Rightarrow>
             (let s1 = (set_list (m_frontList s) fl s)\<lparr>m_textureStreamArg := new\<rparr> in
              if pixels (m_textureStreamArg s1) + remainingPixels (m_textureStreamArg s1)
                   = pixels curr
              then Inr (False,
                     set_upload (dl_remove c T_SCT (m_displayListUpload s1))
                       (s1\<lparr>m_textureStreamArg :=
                             \<lparr>pixels = pixels (m_textureStreamArg s1)
                                         + remainingPixels (m_textureStreamArg s1),
                              remainingPixels = 0\<rparr>\<rparr>))
              else Inr (True, s1))
         | _ \<Rightarrow> Inl Misread))"

text \<open>\<^verbatim>\<open>case StreamCommand::SET_REG\<close>: the 16 bit argument is copied.\<close>

definition case_SET_REG ::
  "('v4, 'v2, 'g) config \<Rightarrow> 'g Renderer \<Rightarrow> fault + (bool \<times> 'g Renderer)"
where
  "case_SET_REG c s =
     (case create c HARDWARE_BUFFER_SIZE T_uint16 (m_displayListUpload s) of (arg, up) \<Rightarrow>
      case getNext c T_uint16 (frontList s) of (src, fl) \<Rightarrow>
      (case (arg, src) of
         (Some aq, Some sp) \<Rightarrow>
           (case storage fl sp of
              U16 v \<Rightarrow>
                Inr (False, set_upload (store aq (U16 v) up) (set_list (m_frontList s) fl s))
            | _ \<Rightarrow> Inl Misread)
       | _ \<Rightarrow> Inl NullPointer))"

text \<open>The body of the fill loop after the opcode \<open>op\<close> was taken from the front list:
  the opcode is copied to the upload list, then the switch over its class.\<close>

definition fillBody ::
  "('v4, 'v2, 'g) config \<Rightarrow> SCT \<Rightarrow> 'g Renderer \<Rightarrow> fault + (bool \<times> 'g Renderer)"
where
  "fillBody c op s =
     (case create c HARDWARE_BUFFER_SIZE T_SCT (m_displayListUpload s) of
        (None, up) \<Rightarrow> Inl NullPointer
      | (Some q, up) \<Rightarrow>
        (let s1 = set_upload (store q (Op op) up) s in
         if op AND STREAM_COMMAND_OP_MASK = TRIANGLE_STREAM then case_TRIANGLE_STREAM c s1
         else if op AND STREAM_COMMAND_OP_MASK = FRAMEBUFFER_OP
               \<or> op AND STREAM_COMMAND_OP_MASK = NOP then Inr (False, s1)
         else if op AND STREAM_COMMAND_OP_MASK = TEXTURE_STREAM then case_TEXTURE_STREAM c s1
         else if op AND STREAM_COMMAND_OP_MASK = SET_REG then case_SET_REG c s1
         else Inr (False, set_upload (dl_remove c T_SCT (m_displayListUpload s1)) s1)))"

subsection \<open>The fill loop\<close>

lemma round_up_ge: "n \<le> round_up a n"
proof (cases "a = 0 \<or> n mod a = 0")
  case True
  then show ?thesis by (auto simp: round_up_def)
next
  case False
  then have "n mod a < a" by simp
  with False show ?thesis unfolding round_up_def by auto
qed

lemma sizeOf_SCT_pos: "0 < sizeOf c T_SCT"
  using round_up_ge [of 2 "ALIGN c"] by (simp add: sizeOf_def)

lemma getNext_front:
  "getNext c T dl = (r, fl) \<Longrightarrow>
     write_pos fl = write_pos dl \<and> read_pos dl \<le> read_pos fl \<and> state fl = state dl
     \<and> storage fl = storage dl"
  by (auto simp: getNext_def split: if_splits)

lemma frontList_simps [simp]:
  "frontList (set_upload up s) = frontList s"
  "frontList (set_list (m_frontList s) fl s) = fl"
  "m_frontList (set_upload up s) = m_frontList s"
  "m_frontList (set_list i fl s) = m_frontList s"
  "m_backList (set_upload up s) = m_backList s"
  "m_backList (set_list i fl s) = m_backList s"
  "frontList (s\<lparr>m_textureStreamArg := t\<rparr>) = frontList s"
  by (simp_all add: frontList_def set_upload_def set_list_def)

lemma case_TRIANGLE_STREAM_front:
  assumes "case_TRIANGLE_STREAM c s = Inr (l, s')"
  shows "m_frontList s' = m_frontList s \<and> m_backList s' = m_backList s
       \<and> write_pos (frontList s') = write_pos (frontList s)
       \<and> read_pos (frontList s) \<le> read_pos (frontList s')"
  using assms
  by (auto simp: case_TRIANGLE_STREAM_def Let_def
           split: prod.splits option.splits cell.splits if_splits dest: getNext_front)

lemma case_TEXTURE_STREAM_front:
  assumes "case_TEXTURE_STREAM c s = Inr (l, s')"
  shows "m_frontList s' = m_frontList s \<and> m_backList s' = m_backList s
       \<and> write_pos (frontList s') = write_pos (frontList s)
       \<and> read_pos (frontList s) \<le> read_pos (frontList s')"
  using assms
  by (auto simp: case_TEXTURE_STREAM_def Let_def
           split: prod.splits option.splits cell.splits if_splits dest: getNext_front)

lemma case_SET_REG_front:
  assumes "case_SET_REG c s = Inr (l, s')"
  shows "m_frontList s' = m_frontList s \<and> m_backList s' = m_backList s
       \<and> write_pos (frontList s') = write_pos (frontList s)
       \<and> read_pos (frontList s) \<le> read_pos (frontList s')"
  using assms
  by (auto simp: case_SET_REG_def Let_def
           split: prod.splits option.splits cell.splits if_splits dest: getNext_front)

lemma fillBody_front:
  assumes "fillBody c op s = Inr (l, s')"
  shows "m_frontList s' = m_frontList s \<and> m_backList s' = m_backList s
       \<and> write_pos (frontList s') = write_pos (frontList s)
       \<and> read_pos (frontList s) \<le> read_pos (frontList s')"
  using assms
  by (auto simp: fillBody_def Let_def
           split: prod.splits option.splits if_splits
           dest: case_TRIANGLE_STREAM_front case_TEXTURE_STREAM_front case_SET_REG_front)

text \<open>The fill loop of \<^verbatim>\<open>uploadDisplayList\<close>:
  \<^verbatim>\<open>while (!leaveLoop && hasEnoughSpace(m_displayListUpload))\<close>. It ends because every
  pass takes at least one opcode from the front list.\<close>

function fill :: "('v4, 'v2, 'g) config \<Rightarrow> 'g Renderer \<Rightarrow> fault + 'g Renderer" where
  "fill c s =
     (if hasEnoughSpace c HARDWARE_BUFFER_SIZE (m_displayListUpload s) then
        (case getNext c T_SCT (frontList s) of
           (None, fl) \<Rightarrow> Inr s
         | (Some p, fl) \<Rightarrow>
             (case storage fl p of
                Op op \<Rightarrow>
                  (case fillBody c op (set_list (m_frontList s) fl s) of
                     Inl f \<Rightarrow> Inl f
                   | Inr (leaveLoop, s') \<Rightarrow> if leaveLoop then Inr s' else fill c s')
              | _ \<Rightarrow> Inl Misread))
      else Inr s)"
  by pat_completeness auto
termination
proof (relation "measure (\<lambda>(c, s). write_pos (frontList s) - read_pos (frontList s))")
  show "wf (measure (\<lambda>(c :: ('v4, 'v2, 'g) config, s :: 'g Renderer).
          write_pos (frontList s) - read_pos (frontList s)))"
    by simp
next
  fix c :: "('v4, 'v2, 'g) config" and s :: "'g Renderer" and x1 fl p x4 op x2 x y leaveLoop s'
  assume g: "(x1, fl) = getNext c T_SCT (frontList s)" "x1 = Some p"
    and b: "fillBody c op (set_list (m_frontList s) fl s) = Inr x2" "(leaveLoop, s') = x2"
  show "((c, s'), (c, s)) \<in> measure (\<lambda>(c, s). write_pos (frontList s) - read_pos (frontList s))"
  proof -
    from g have r: "read_pos fl = read_pos (frontList s) + sizeOf c T_SCT"
      "write_pos fl = write_pos (frontList s)"
      "read_pos (frontList s) + sizeOf c T_SCT \<le> write_pos (frontList s)"
      by (auto simp: getNext_def split: if_splits)
    have f: "frontList (set_list (m_frontList s) fl s) = fl"
      by (simp add: frontList_def set_list_def)
    from b have "fillBody c op (set_list (m_frontList s) fl s) = Inr (leaveLoop, s')"
      by simp
    from fillBody_front [OF this] f r
    have "write_pos (frontList s') = write_pos (frontList s)"
      "read_pos (frontList s) + sizeOf c T_SCT \<le> read_pos (frontList s')"
      by simp_all
    with r(3) sizeOf_SCT_pos [of c] show ?thesis
      by simp
  qed
qed

declare fill.simps [simp del]

subsection \<open>One tick of the walker\<close>

text \<open>\<^verbatim>\<open>uploadDisplayList\<close>: the result is the returned flag (true while an upload is in
  progress) and the new state.\<close>

definition uploadDisplayList ::
  "('v4, 'v2, 'g) config \<Rightarrow> 'g Renderer \<Rightarrow> fault + (bool \<times> 'g Renderer)"
where
  "uploadDisplayList c s0 =
     (case clearToSend (m_busConnector s0) of (cts, b) \<Rightarrow>
      (let s = s0\<lparr>m_busConnector := b\<rparr> in
       if \<not> cts then Inr (True, s)
       else
         (case (if state (frontList s) = QUEUED
                then (case transfer (frontList s) of
                        Inl f \<Rightarrow> Inl f
                      | Inr fl \<Rightarrow>
                          Inr (set_list (m_frontList s) fl
                                 (s\<lparr>m_uploadIndexPosition := ucast (DISPLAY_LINES c) - 1\<rparr>)))
                else Inr s) of
            Inl f \<Rightarrow> Inl f
          | Inr s1 \<Rightarrow>
              if state (frontList s1) = TRANSFERRING then
                if remainingPixels (m_textureStreamArg s1) > 0 then
                  Inr (True,
                    s1\<lparr>m_busConnector :=
                          writeData (HostPixels (pixels (m_textureStreamArg s1)))
                            HARDWARE_BUFFER_SIZE (m_busConnector s1),
                        m_textureStreamArg :=
                          \<lparr>pixels = pixels (m_textureStreamArg s1) + PIXEL_INC,
                           remainingPixels = remainingPixels (m_textureStreamArg s1) - PIXEL_INC\<rparr>\<rparr>)
                else
                  (case fill c (set_upload (dl_clear (m_displayListUpload s1)) s1) of
                     Inl f \<Rightarrow> Inl f
                   | Inr s2 \<Rightarrow>
                     (let s3 = s2\<lparr>m_busConnector :=
                                  writeData (ListMemory (getMemPtr (m_displayListUpload s2)))
                                    (getSize (m_displayListUpload s2))
                                    (startColorBufferTransfer (m_uploadIndexPosition s2)
                                       (m_busConnector s2))\<rparr>
                      in if atEnd (frontList s3) then
                           (let s4 = set_list (m_frontList s3) (resetGet (frontList s3)) s3 in
                            if m_uploadIndexPosition s4 = 0
                            then Inr (False, set_list (m_frontList s4) (dl_clear (frontList s4)) s4)
                            else Inr (True,
                                   s4\<lparr>m_uploadIndexPosition := m_uploadIndexPosition s4 - 1\<rparr>))
                         else Inr (True, s3)))
              else Inr (False, s1))))"

subsection \<open>Drawing and committing\<close>

definition drawTriangle ::
  "('v4, 'v2, 'g) config \<Rightarrow> 'v4 \<Rightarrow> 'v4 \<Rightarrow> 'v4 \<Rightarrow> 'v2 \<Rightarrow> 'v2 \<Rightarrow> 'v2 \<Rightarrow> Vec4i \<Rightarrow> 'g Renderer
     \<Rightarrow> fault + (bool \<times> 'g Renderer)"
where
  "drawTriangle c v0 v1 v2 st0 st1 st2 color s =
     (case rasterize c v0 st0 v1 st1 v2 st2 of
        None \<Rightarrow> Inr (True, s)
      | Some triangleConf \<Rightarrow>
          (case appendStreamCommand c (DISPLAY_LIST_SIZE c) (backList s) (TRIANGLE_FULL c)
                  T_RasterizedTriangle
                  (Tri (triangleConf\<lparr>triangleStaticColor := convertColor color\<rparr>)) of
             (retVal, dl) \<Rightarrow>
               (case uploadDisplayList c (set_list (m_backList s) dl s) of
                  Inl f \<Rightarrow> Inl f
                | Inr (r, s') \<Rightarrow> Inr (retVal, s'))))"

text \<open>The loop \<^verbatim>\<open>while (uploadDisplayList());\<close> of \<^verbatim>\<open>commit\<close>. It runs for as long as
  the bus is busy or the front list is not sent, which may be for ever: \<open>None\<close>.\<close>

partial_function (option) drain ::
  "('v4, 'v2, 'g) config \<Rightarrow> 'g Renderer \<Rightarrow> (fault + 'g Renderer) option"
where
  "drain c s =
     (case uploadDisplayList c s of
        Inl f \<Rightarrow> Some (Inl f)
      | Inr rs \<Rightarrow> if fst rs then drain c (snd rs) else Some (Inr (snd rs)))"

declare drain.simps [code]

text \<open>\<^verbatim>\<open>commit\<close> returns \<^verbatim>\<open>void\<close>: the unit value.\<close>

definition commit ::
  "('v4, 'v2, 'g) config \<Rightarrow> 'g Renderer \<Rightarrow> (fault + unit \<times> 'g Renderer) option"
where
  "commit c s =
     (case create c (DISPLAY_LIST_SIZE c) T_SCT (backList s) of
        (None, dl) \<Rightarrow> Some (Inr ((), set_list (m_backList s) (dl_clear dl) s))
      | (Some p, dl) \<Rightarrow>
          (case drain c
                  (set_list (m_backList s)
                     (store p (Op (FRAMEBUFFER_COMMIT OR FRAMEBUFFER_COLOR)) dl) s) of
             None \<Rightarrow> None
           | Some (Inl f) \<Rightarrow> Some (Inl f)
           | Some (Inr s1) \<Rightarrow>
               (case enqueue (backList s1) of
                  Inl f \<Rightarrow> Some (Inl f)
                | Inr bl \<Rightarrow>
                    (let s2 = set_list (m_backList s1) bl s1;
                         s3 = (if m_backList s2 = 0
                               then s2\<lparr>m_backList := 1, m_frontList := 0\<rparr>
                               else s2\<lparr>m_backList := 0, m_frontList := 1\<rparr>)
                     in case uploadDisplayList c s3 of
                          Inl f \<Rightarrow> Some (Inl f)
                        | Inr (r, s4) \<Rightarrow> Some (Inr ((), s4))))))"

section \<open>Properties\<close>

subsection \<open>Appending is all or nothing\<close>

text \<open>A command and its argument fit in a list when both aligned sizes do; \<open>appended\<close>
  is the list with the two records written at its end.\<close>

definition fits :: "('v4, 'v2, 'g) config \<Rightarrow> nat \<Rightarrow> ctype \<Rightarrow> 'g DisplayList \<Rightarrow> bool" where
  "fits c capacity T dl = (write_pos dl + sizeOf c T_SCT + sizeOf c T \<le> capacity)"

definition appended ::
  "('v4, 'v2, 'g) config \<Rightarrow> SCT \<Rightarrow> ctype \<Rightarrow> 'g cell \<Rightarrow> 'g DisplayList \<Rightarrow> 'g DisplayList"
where
  "appended c op T arg dl =
     dl\<lparr>storage := (storage dl)(write_pos dl := Op op, write_pos dl + sizeOf c T_SCT := arg),
        write_pos := write_pos dl + sizeOf c T_SCT + sizeOf c T\<rparr>"

lemma appendStreamCommand_eq:
  "appendStreamCommand c capacity dl op T arg =
     (if fits c capacity T dl then (True, appended c op T arg dl) else (False, dl))"
  by (auto simp: appendStreamCommand_def create_def dl_remove_def store_def fits_def
        appended_def Let_def)

lemma backList_simps [simp]:
  "backList (set_list (m_backList s) dl s) = dl"
  "m_backList (s\<lparr>m_confReg1 := r1\<rparr>) = m_backList s"
  "m_backList (s\<lparr>m_confReg2 := r2\<rparr>) = m_backList s"
  "backList (s\<lparr>m_confReg1 := r1\<rparr>) = backList s"
  "backList (s\<lparr>m_confReg2 := r2\<rparr>) = backList s"
  by (simp_all add: backList_def set_list_def)

lemma appendStreamCommandBack_eq:
  "appendStreamCommandBack c op T arg s =
     (if fits c (DISPLAY_LIST_SIZE c) T (backList s)
      then (True, set_list (m_backList s) (appended c op T arg (backList s)) s)
      else (False, s))"
  by (simp add: appendStreamCommandBack_def appendStreamCommand_eq set_list_def backList_def)

subsection \<open>What the walker leaves alone\<close>

text \<open>What the fill loop leaves alone.\<close>

definition walk_frame :: "'g Renderer \<Rightarrow> 'g Renderer \<Rightarrow> bool" where
  "walk_frame s s' =
     (m_frontList s' = m_frontList s \<and> m_backList s' = m_backList s
      \<and> (\<forall>i. i \<noteq> m_frontList s \<longrightarrow> m_displayList s' i = m_displayList s i)
      \<and> storage (frontList s') = storage (frontList s)
      \<and> write_pos (frontList s') = write_pos (frontList s)
      \<and> state (frontList s') = state (frontList s)
      \<and> read_pos (frontList s) \<le> read_pos (frontList s')
      \<and> m_busConnector s' = m_busConnector s
      \<and> m_uploadIndexPosition s' = m_uploadIndexPosition s
      \<and> m_staticTriangleColor s' = m_staticTriangleColor s
      \<and> m_confReg1 s' = m_confReg1 s \<and> m_confReg2 s' = m_confReg2 s)"

lemma walk_frame_refl [simp]: "walk_frame s s"
  by (simp add: walk_frame_def)

lemma walk_frame_trans: "walk_frame s t \<Longrightarrow> walk_frame t u \<Longrightarrow> walk_frame s u"
  by (auto simp: walk_frame_def)

lemma walk_frame_set_upload [simp]: "walk_frame s (set_upload up s)"
  by (simp add: walk_frame_def set_upload_def frontList_def)

lemma walk_frame_getNext:
  "getNext c T (frontList s) = (r, fl) \<Longrightarrow> walk_frame s (set_list (m_frontList s) fl s)"
  by (auto simp: walk_frame_def set_list_def frontList_def getNext_def split: if_splits)

lemma walk_frame_tex:
  "walk_frame s t \<Longrightarrow> walk_frame s (t\<lparr>m_textureStreamArg := a\<rparr>)"
  by (auto simp: walk_frame_def frontList_def)

lemma walk_frame_upload:
  "walk_frame s t \<Longrightarrow> walk_frame s (set_upload up t)"
  by (auto simp: walk_frame_def frontList_def set_upload_def)

lemma case_TRIANGLE_STREAM_frame:
  assumes "case_TRIANGLE_STREAM c s = Inr (l, s')"
  shows "walk_frame s s'"
  using assms
  by (auto simp: case_TRIANGLE_STREAM_def Let_def
           split: prod.splits option.splits cell.splits if_splits
           intro!: walk_frame_upload walk_frame_tex walk_frame_getNext)

lemma case_TEXTURE_STREAM_frame:
  assumes "case_TEXTURE_STREAM c s = Inr (l, s')"
  shows "walk_frame s s'"
  using assms
  by (auto simp: case_TEXTURE_STREAM_def Let_def
           split: prod.splits option.splits cell.splits if_splits
           intro!: walk_frame_upload walk_frame_tex walk_frame_getNext)

lemma case_SET_REG_frame:
  assumes "case_SET_REG c s = Inr (l, s')"
  shows "walk_frame s s'"
  using assms
  by (auto simp: case_SET_REG_def Let_def
           split: prod.splits option.splits cell.splits if_splits
           intro!: walk_frame_upload walk_frame_tex walk_frame_getNext)

lemma fillBody_frame:
  assumes "fillBody c op s = Inr (l, s')"
  shows "walk_frame s s'"
proof -
  from assms obtain q up where
    cr: "create c HARDWARE_BUFFER_SIZE T_SCT (m_displayListUpload s) = (Some q, up)"
    by (auto simp: fillBody_def split: prod.splits option.splits)
  let ?s1 = "set_upload (store q (Op op) up) s"
  have 1: "walk_frame s ?s1" by simp
  from assms cr have "walk_frame ?s1 s'"
    by (auto simp: fillBody_def Let_def split: if_splits
          dest: case_TRIANGLE_STREAM_frame case_TEXTURE_STREAM_frame case_SET_REG_frame)
  with 1 show ?thesis by (rule walk_frame_trans)
qed

lemma fill_frame:
  "fill c s = Inr s' \<Longrightarrow> walk_frame s s'"
proof (induction c s arbitrary: s' rule: fill.induct)
  case (1 c s)
  show ?case
  proof (cases "hasEnoughSpace c HARDWARE_BUFFER_SIZE (m_displayListUpload s)")
    case False
    with "1.prems" show ?thesis by (simp add: fill.simps [of c s])
  next
    case True
    obtain r fl where g: "getNext c T_SCT (frontList s) = (r, fl)"
      by (cases "getNext c T_SCT (frontList s)")
    show ?thesis
    proof (cases r)
      case None
      with True g "1.prems" show ?thesis by (simp add: fill.simps [of c s])
    next
      case (Some p)
      let ?s1 = "set_list (m_frontList s) fl s"
      from True g Some "1.prems" obtain op where op: "storage fl p = Op op"
        by (auto simp: fill.simps [of c s] split: cell.splits)
      from True g Some "1.prems" op obtain l t where
        b: "fillBody c op ?s1 = Inr (l, t)" and
        rest: "if l then s' = t else fill c t = Inr s'"
        by (auto simp: fill.simps [of c s] split: sum.splits if_splits)
      have a: "walk_frame s ?s1" using g by (rule walk_frame_getNext)
      have b': "walk_frame ?s1 t" using b by (rule fillBody_frame)
      show ?thesis
      proof (cases l)
        case True
        with rest a b' show ?thesis by (auto intro: walk_frame_trans)
      next
        case False
        with rest have "fill c t = Inr s'" by simp
        from "1.IH" [OF True g [symmetric] Some op b [symmetric, THEN sym] _ False this]
        have "walk_frame t s'" by simp
        with a b' show ?thesis by (blast intro: walk_frame_trans)
      qed
    qed
  qed
qed

lemma walk_frame_start:
  "walk_frame (set_upload up s) t \<Longrightarrow> walk_frame s t"
  by (auto simp: walk_frame_def frontList_def set_upload_def)

text \<open>The phases of one tick, as functions of the state.\<close>

definition bus_clear :: "'g Renderer \<Rightarrow> bool" where
  "bus_clear s = clear_answers (m_busConnector s) (polls (m_busConnector s))"

definition polled :: "'g Renderer \<Rightarrow> 'g Renderer" where
  "polled s = s\<lparr>m_busConnector := (m_busConnector s)\<lparr>polls := Suc (polls (m_busConnector s))\<rparr>\<rparr>"

definition started :: "('v4, 'v2, 'g) config \<Rightarrow> 'g Renderer \<Rightarrow> 'g Renderer" where
  "started c s =
     (if state (frontList s) = QUEUED
      then set_list (m_frontList s) ((frontList s)\<lparr>state := TRANSFERRING\<rparr>)
             (s\<lparr>m_uploadIndexPosition := ucast (DISPLAY_LINES c) - 1\<rparr>)
      else s)"

definition texture_chunk :: "'g Renderer \<Rightarrow> 'g Renderer" where
  "texture_chunk s =
     s\<lparr>m_busConnector :=
         writeData (HostPixels (pixels (m_textureStreamArg s))) HARDWARE_BUFFER_SIZE
           (m_busConnector s),
       m_textureStreamArg :=
         \<lparr>pixels = pixels (m_textureStreamArg s) + PIXEL_INC,
          remainingPixels = remainingPixels (m_textureStreamArg s) - PIXEL_INC\<rparr>\<rparr>"

definition flushed :: "'g Renderer \<Rightarrow> 'g Renderer" where
  "flushed s =
     s\<lparr>m_busConnector :=
         writeData (ListMemory (getMemPtr (m_displayListUpload s)))
           (getSize (m_displayListUpload s))
           (startColorBufferTransfer (m_uploadIndexPosition s) (m_busConnector s))\<rparr>"

definition finish :: "'g Renderer \<Rightarrow> bool \<times> 'g Renderer" where
  "finish s =
     (if atEnd (frontList s) then
        (if m_uploadIndexPosition s = 0
         then (False, set_list (m_frontList s) (dl_clear (resetGet (frontList s))) s)
         else (True,
               (set_list (m_frontList s) (resetGet (frontList s)) s)
                 \<lparr>m_uploadIndexPosition := m_uploadIndexPosition s - 1\<rparr>))
      else (True, s))"

lemma uploadDisplayList_phases:
  "uploadDisplayList c s =
     (if \<not> bus_clear s then Inr (True, polled s)
      else if state (frontList (started c (polled s))) = TRANSFERRING then
        (if remainingPixels (m_textureStreamArg s) > 0
         then Inr (True, texture_chunk (started c (polled s)))
         else (case fill c (set_upload (dl_clear (m_displayListUpload s)) (started c (polled s))) of
                 Inl f \<Rightarrow> Inl f
               | Inr s2 \<Rightarrow> Inr (finish (flushed s2))))
      else Inr (False, polled s))"
  by (simp add: uploadDisplayList_def clearToSend_def bus_clear_def polled_def started_def
        texture_chunk_def flushed_def finish_def transfer_def Let_def frontList_def
        set_list_def set_upload_def resetGet_def dl_clear_def atEnd_def
      split: sum.splits)

text \<open>What one tick leaves alone: the indices, every frame list but the front list, the
  contents of the front list, the registers; and the bus is polled exactly once.\<close>

definition tick_frame :: "'g Renderer \<Rightarrow> 'g Renderer \<Rightarrow> bool" where
  "tick_frame s s' =
     (m_frontList s' = m_frontList s \<and> m_backList s' = m_backList s
      \<and> (\<forall>i. i \<noteq> m_frontList s \<longrightarrow> m_displayList s' i = m_displayList s i)
      \<and> storage (frontList s') = storage (frontList s)
      \<and> polls (m_busConnector s') = Suc (polls (m_busConnector s))
      \<and> clear_answers (m_busConnector s') = clear_answers (m_busConnector s)
      \<and> m_staticTriangleColor s' = m_staticTriangleColor s
      \<and> m_confReg1 s' = m_confReg1 s \<and> m_confReg2 s' = m_confReg2 s)"

lemma tick_frame_polled: "tick_frame s (polled s)"
  by (simp add: tick_frame_def polled_def frontList_def)

lemma tick_frame_started: "tick_frame s t \<Longrightarrow> tick_frame s (started c t)"
  by (auto simp: tick_frame_def started_def frontList_def set_list_def)

lemma tick_frame_texture_chunk: "tick_frame s t \<Longrightarrow> tick_frame s (texture_chunk t)"
  by (auto simp: tick_frame_def texture_chunk_def frontList_def writeData_def)

lemma tick_frame_set_upload: "tick_frame s t \<Longrightarrow> tick_frame s (set_upload up t)"
  by (auto simp: tick_frame_def set_upload_def frontList_def)

lemma tick_frame_walk: "tick_frame s t \<Longrightarrow> walk_frame t u \<Longrightarrow> tick_frame s u"
  by (auto simp: tick_frame_def walk_frame_def)

lemma tick_frame_flushed: "tick_frame s t \<Longrightarrow> tick_frame s (flushed t)"
  by (auto simp: tick_frame_def flushed_def frontList_def writeData_def
        startColorBufferTransfer_def)

lemma tick_frame_finish: "tick_frame s t \<Longrightarrow> tick_frame s (snd (finish t))"
  by (auto simp: tick_frame_def finish_def frontList_def set_list_def resetGet_def dl_clear_def)

lemma uploadDisplayList_frame:
  assumes "uploadDisplayList c s = Inr (r, s')"
  shows "tick_frame s s'"
proof -
  let ?s1 = "started c (polled s)"
  have 1: "tick_frame s ?s1"
    by (intro tick_frame_started tick_frame_polled)
  consider (busy) "s' = polled s" | (tex) "s' = texture_chunk ?s1"
    | (band) s2 where "fill c (set_upload (dl_clear (m_displayListUpload s)) ?s1) = Inr s2"
        "s' = snd (finish (flushed s2))"
    using assms unfolding uploadDisplayList_phases
    by (auto split: if_splits sum.splits)
  then show ?thesis
  proof cases
    case busy
    then show ?thesis by (simp add: tick_frame_polled)
  next
    case tex
    with 1 show ?thesis by (simp add: tick_frame_texture_chunk)
  next
    case band
    from band(1) have "walk_frame (set_upload (dl_clear (m_displayListUpload s)) ?s1) s2"
      by (rule fill_frame)
    with 1 have "tick_frame s s2"
      by (blast intro: tick_frame_walk tick_frame_set_upload)
    with band(2) show ?thesis
      by (simp add: tick_frame_finish tick_frame_flushed)
  qed
qed

lemma tick_frame_backList:
  "tick_frame s s' \<Longrightarrow> m_frontList s \<noteq> m_backList s \<Longrightarrow> backList s' = backList s"
  by (simp add: tick_frame_def backList_def)

subsection \<open>A configuration and a state to compute with\<close>

text \<open>Two bands of 64 lines, a frame list of 64 bytes on a 32 bit bus. A vertex is its
  line on the screen; a triangle is kept as the first and the last line it covers, and
  it is outside of the view volume when its first two vertices coincide.\<close>

definition example_config :: "(nat, unit, nat \<times> nat) config" where
  "example_config =
     \<lparr>DISPLAY_LIST_SIZE = 64, DISPLAY_LINES = 2, LINE_RESOLUTION = 64, BUS_WIDTH = 32,
      sizeof_RasterizedTriangle = 12, sizeof_TextureStreamArg = 8,
      rasterize = (\<lambda>v0 st0 v1 st1 v2 st2.
         if v0 = v1 then None
         else Some \<lparr>triangleStaticColor = 0,
                    geometry = (min v0 (min v1 v2), max v0 (max v1 v2))\<rparr>),
      calcLineIncrement = (\<lambda>t y_start y_end.
         (fst (geometry t) < unat y_end \<and> unat y_start \<le> snd (geometry t), t))\<rparr>"

definition empty_list :: "'g DisplayList" where
  "empty_list = \<lparr>storage = (\<lambda>p. Unset), write_pos = 0, read_pos = 0, state = FREE\<rparr>"

text \<open>The members as their initialisers and the two calls of \<^verbatim>\<open>clear\<close> in the constructor
  leave them, with a bus that is always clear to send. The padding of \<^verbatim>\<open>m_confReg2\<close>,
  which nothing initialises, is taken to be zero in this state.\<close>

definition example_state :: "(nat \<times> nat) Renderer" where
  "example_state =
     \<lparr>m_displayList = (\<lambda>i. empty_list), m_displayListUpload = empty_list,
      m_frontList = 0, m_backList = 1, m_uploadIndexPosition = 0,
      m_textureStreamArg = \<lparr>pixels = 0, remainingPixels = 0\<rparr>,
      m_busConnector = \<lparr>clear_answers = (\<lambda>n. True), polls = 0, calls = []\<rparr>,
      m_staticTriangleColor = 0xffff,
      m_confReg1 = \<lparr>enableDepthTest = False, depthFunc = 0, alphaFunc = 0,
                    referenceAlphaValue = 0, depthMask = False, colorMaskA = False,
                    colorMaskB = False, colorMaskG = False, colorMaskR = False\<rparr>,
      m_confReg2 = \<lparr>perspectiveCorrectedTextures = True, texEnvFunc = 0,
                    blendFuncSFactor = 0, blendFuncDFactor = 0, texClampS = False,
                    texClampT = False, padding = 0\<rparr>\<rparr>"

lemma example_sizes [simp]:
  "sizeOf example_config T_SCT = 4" "sizeOf example_config T_uint16 = 4"
  "sizeOf example_config T_ConfReg1 = 4" "sizeOf example_config T_ConfReg2 = 4"
  "sizeOf example_config T_TextureStreamArg = 8"
  "sizeOf example_config T_RasterizedTriangle = 12"
  "DISPLAY_LIST_SIZE example_config = 64"
  by (simp_all add: sizeOf_def ALIGN_def round_up_def example_config_def)

lemma example_state_simps [simp]:
  "m_frontList example_state = 0" "m_backList example_state = 1"
  "backList example_state = empty_list" "frontList example_state = empty_list"
  "write_pos empty_list = 0" "read_pos empty_list = 0" "state empty_list = FREE"
  "bus_clear example_state"
  by (simp_all add: example_state_def backList_def frontList_def empty_list_def bus_clear_def)

text \<open>The band indices handed to \<^verbatim>\<open>startColorBufferTransfer\<close>, in order.\<close>

fun bands :: "'g bus_call list \<Rightarrow> 32 word list" where
  "bands [] = []"
| "bands (StartColorBufferTransfer i # cs) = i # bands cs"
| "bands (WriteData d n # cs) = bands cs"

text \<open>The example state with a back list that is full.\<close>

definition full_state :: "(nat \<times> nat) Renderer" where
  "full_state = set_list 1 (empty_list\<lparr>write_pos := 64\<rparr>) example_state"

text \<open>The example state with a front list that holds one \<^verbatim>\<open>NOP\<close> and is queued.\<close>

definition queued_state :: "(nat \<times> nat) Renderer" where
  "queued_state =
     set_list 0 (empty_list\<lparr>storage := (\<lambda>p. Unset)(0 := Op NOP), write_pos := 4,
                            state := QUEUED\<rparr>) example_state"

text \<open>The example state in the middle of the pass for band \<open>i\<close>: the front list holds
  one triangle that covers the lines 10 to 50, and its opcode was just taken.\<close>

definition triangle_state :: "32 word \<Rightarrow> (nat \<times> nat) Renderer" where
  "triangle_state i =
     (set_list 0
        (empty_list\<lparr>storage := (\<lambda>p. Unset)
                       (0 := Op (TRIANGLE_FULL example_config),
                        4 := Tri \<lparr>triangleStaticColor = 0, geometry = (10, 50)\<rparr>),
                     write_pos := 16, read_pos := 4, state := TRANSFERRING\<rparr>)
        example_state)\<lparr>m_uploadIndexPosition := i\<rparr>"

text \<open>Three bands of 32768 lines: the product of the band index 2 and the number of
  lines of a band does not fit in 16 bits.\<close>

definition wide_config :: "(nat, unit, nat \<times> nat) config" where
  "wide_config = example_config\<lparr>DISPLAY_LINES := 3, LINE_RESOLUTION := 32768\<rparr>"

text \<open>The example state at the start of a pass: the front list holds the command of a
  texture of 32 by 32 pixels at address 4096, and the cursor is \<open>cur\<close>.\<close>

definition texture_state :: "TextureStreamArg \<Rightarrow> (nat \<times> nat) Renderer" where
  "texture_state cur =
     (set_list 0
        (empty_list\<lparr>storage := (\<lambda>p. Unset)
                       (0 := Op TEXTURE_STREAM_32x32,
                        4 := Tex \<lparr>pixels = 4096, remainingPixels = 1024\<rparr>),
                     write_pos := 12, state := TRANSFERRING\<rparr>)
        example_state)\<lparr>m_textureStreamArg := cur\<rparr>"

text \<open>The example state with a bus that is clear to send at the first poll only.\<close>

definition busy_state :: "(nat \<times> nat) Renderer" where
  "busy_state =
     example_state\<lparr>m_busConnector := \<lparr>clear_answers = (\<lambda>n. n = 0), polls = 0, calls = []\<rparr>\<rparr>"

subsection \<open>Colour packing\<close>

lemma channel_cast:
  fixes x :: "32 word"
  assumes "0 \<le> sint x" "sint x \<le> 255"
  shows "(ucast (ucast (signed_drop_bit 4 x) :: 16 word) :: 32 word)
           = word_of_int (drop_bit 4 (sint x))"
    and "0 \<le> drop_bit 4 (sint x)" and "drop_bit 4 (sint x) < 16"
proof -
  let ?k = "drop_bit 4 (sint x)"
  show k: "0 \<le> ?k" "?k < 16"
    using assms by (simp_all add: drop_bit_eq_div)
  have y: "signed_drop_bit 4 x = word_of_int ?k"
    by (metis of_int_sint scast_id sint_signed_drop_bit_eq)
  have "(ucast (signed_drop_bit 4 x) :: 16 word) = word_of_int ?k"
    unfolding y by (rule ucast_down_wi) (simp add: is_down)
  moreover have "uint (word_of_int ?k :: 16 word) = ?k"
    using k by (simp add: uint_word_of_int_eq take_bit_int_eq_self)
  ultimately show "(ucast (ucast (signed_drop_bit 4 x) :: 16 word) :: 32 word) = word_of_int ?k"
    by (metis of_int_uint)
qed

text \<open>
  C9: for a colour whose four channels lie between 0 and 255, \<open>convertColor\<close> gives
  the 16 bit value \<open>((R>>4)<<12) | ((G>>4)<<8) | ((B>>4)<<4) | (A>>4)\<close>: red in the most
  significant nibble, alpha in the least.
\<close>

theorem convertColor_packs_nibbles:
  assumes "0 \<le> sint R" "sint R \<le> 255" "0 \<le> sint G" "sint G \<le> 255"
    "0 \<le> sint B" "sint B \<le> 255" "0 \<le> sint A" "sint A \<le> 255"
  shows "uint (convertColor (Vec4i R G B A)) =
           push_bit 12 (drop_bit 4 (sint R)) OR push_bit 8 (drop_bit 4 (sint G))
           OR push_bit 4 (drop_bit 4 (sint B)) OR drop_bit 4 (sint A)"
proof -
  let ?r = "drop_bit 4 (sint R)" and ?g = "drop_bit 4 (sint G)"
  let ?b = "drop_bit 4 (sint B)" and ?a = "drop_bit 4 (sint A)"
  let ?K = "?a OR push_bit 4 ?b OR push_bit 8 ?g OR push_bit 12 ?r"
  note r = channel_cast [OF assms(1,2)] and g = channel_cast [OF assms(3,4)]
    and b = channel_cast [OF assms(5,6)] and a = channel_cast [OF assms(7,8)]
  have "convertColor (Vec4i R G B A) = ucast (word_of_int ?K :: 32 word)"
    by (simp add: convertColor_def r(1) g(1) b(1) a(1) push_bit_of_int word_wi_log_defs)
  also have "\<dots> = word_of_int ?K"
    by (rule ucast_down_wi) (simp add: is_down)
  finally have c: "convertColor (Vec4i R G B A) = word_of_int ?K" .
  have lo: "0 \<le> ?K"
    using r(2) g(2) b(2) a(2) by simp
  have "push_bit 4 ?b < 2 ^ 16" "push_bit 8 ?g < 2 ^ 16" "push_bit 12 ?r < 2 ^ 16" "?a < 2 ^ 16"
    using r(3) g(3) b(3) a(3) by (simp_all add: push_bit_eq_mult)
  then have hi: "?K < 2 ^ 16"
    using r(2) g(2) b(2) a(2) by (intro OR_upper) simp_all
  have t: "take_bit 16 ?K = ?K"
    by (rule take_bit_int_eq_self [OF lo hi])
  have l: "LENGTH(16) = 16"
    by simp
  have "uint (word_of_int ?K :: 16 word) = take_bit LENGTH(16) ?K"
    by (rule uint_word_of_int_eq)
  then have "uint (convertColor (Vec4i R G B A)) = ?K"
    unfolding c l t .
  then show ?thesis
    by (simp add: ac_simps)
qed

theorem convertColor_packs_nibbles_witness:
  "uint (convertColor (Vec4i 255 128 16 15)) = 0xF810"
  using convertColor_packs_nibbles [of 255 128 16 15] by simp

text \<open>The opcode of a texture of \<open>w\<close> by \<open>w\<close> pixels: the size class \<open>w / 32\<close> stands in
  both nibbles of the low byte.\<close>

definition TEXTURE_STREAM_sized :: "16 word \<Rightarrow> SCT" where
  "TEXTURE_STREAM_sized w = TEXTURE_STREAM OR (w div 32) * 0x11"

text \<open>
  C8: \<open>useTexture\<close> returns true exactly for a square texture of width 32, 64, 128 or
  256 whose command fits in the back list; it then appends the opcode of that size and
  the argument with the pixel pointer and \<open>w * h\<close> remaining pixels. Whenever it returns
  false, the state of the driver is the one before the call.
\<close>

theorem useTexture_square_sizes_only:
  "(fst (useTexture c p w h s) \<longleftrightarrow>
      w = h \<and> w \<in> {32, 64, 128, 256}
      \<and> fits c (DISPLAY_LIST_SIZE c) T_TextureStreamArg (backList s))
   \<and> (fst (useTexture c p w h s) \<longrightarrow>
        snd (useTexture c p w h s) =
          set_list (m_backList s)
            (appended c (TEXTURE_STREAM_sized w) T_TextureStreamArg
               (Tex \<lparr>pixels = p, remainingPixels = uint w * uint h\<rparr>) (backList s)) s)
   \<and> (\<not> fst (useTexture c p w h s) \<longrightarrow> snd (useTexture c p w h s) = s)"
  by (auto simp: useTexture_def appendStreamCommandBack_eq TEXTURE_STREAM_sized_def
        TEXTURE_STREAM_256x256_def TEXTURE_STREAM_128x128_def TEXTURE_STREAM_64x64_def
        TEXTURE_STREAM_32x32_def)

theorem useTexture_square_sizes_only_witness:
  "fst (useTexture example_config 4096 32 32 example_state)
   \<and> \<not> fst (useTexture example_config 4096 32 64 example_state)
   \<and> snd (useTexture example_config 4096 48 48 example_state) = example_state"
  using useTexture_square_sizes_only [of example_config 4096 32 32 example_state]
    useTexture_square_sizes_only [of example_config 4096 32 64 example_state]
    useTexture_square_sizes_only [of example_config 4096 48 48 example_state]
  by (simp add: fits_def)

text \<open>
  C10: the result of \<open>setTexEnv\<close> does not depend on \<open>target\<close> and \<open>pname\<close>: two calls in
  the same state with the same \<open>param\<close> return the same flag and the same state, whose
  second configuration register holds \<open>param\<close>.
\<close>

theorem setTexEnv_ignores_target_and_pname:
  "setTexEnv c target1 pname1 param s = setTexEnv c target2 pname2 param s
   \<and> m_confReg2 (snd (setTexEnv c target1 pname1 param s))
       = (m_confReg2 s)\<lparr>texEnvFunc := param\<rparr>"
  by (simp add: setTexEnv_def appendConfReg2_def appendStreamCommandBack_eq set_list_def)

text \<open>The outcome \<open>res\<close> of an encoder call made in state \<open>s\<close> is all or nothing for
  the command \<open>op\<close> with the argument \<open>arg\<close> of type \<open>T\<close>: the call returned true and the
  back list is the old one with the two records appended, or it returned false and the
  back list is the old one.\<close>

definition all_or_nothing ::
  "('v4, 'v2, 'g) config \<Rightarrow> 'g Renderer \<Rightarrow> SCT \<Rightarrow> ctype \<Rightarrow> 'g cell \<Rightarrow> bool \<times> 'g Renderer \<Rightarrow> bool"
where
  "all_or_nothing c s op T arg res =
     (if fst res
      then fits c (DISPLAY_LIST_SIZE c) T (backList s)
         \<and> backList (snd res) = appended c op T arg (backList s)
      else backList (snd res) = backList s)"

lemma appendStreamCommandBack_all_or_nothing:
  "backList s0 = backList s \<Longrightarrow> m_backList s0 = m_backList s \<Longrightarrow>
   all_or_nothing c s op T arg (appendStreamCommandBack c op T arg s0)"
  by (simp add: all_or_nothing_def appendStreamCommandBack_eq backList_def set_list_def)

lemma appendStreamCommandBack_regs [simp]:
  "m_confReg1 (snd (appendStreamCommandBack c op T arg s)) = m_confReg1 s"
  "m_confReg2 (snd (appendStreamCommandBack c op T arg s)) = m_confReg2 s"
  by (simp_all add: appendStreamCommandBack_eq set_list_def)

text \<open>
  C4: every encoder call that appends a command with an argument is all or nothing on
  the back list. \<open>appendStreamCommand\<close> itself either writes both records and returns
  true, or returns false and gives back the list it was given, write position and
  contents. So do the \<^verbatim>\<open>SET_REG\<close> calls, the setters of the two configuration registers
  (their argument is the register after the call), \<open>useTexture\<close> and \<open>drawTriangle\<close>.
\<close>

theorem encoder_appends_all_or_nothing:
  fixes c :: "('v4, 'v2, 'g) config" and s :: "'g Renderer"
  shows
  "appendStreamCommand c capacity dl op T arg =
     (if fits c capacity T dl then (True, appended c op T arg dl) else (False, dl))
   \<and> all_or_nothing c s SET_COLOR_BUFFER_CLEAR_COLOR T_uint16 (U16 (convertColor color))
       (setClearColor c color s)
   \<and> all_or_nothing c s SET_DEPTH_BUFFER_CLEAR_DEPTH T_uint16 (U16 depth)
       (setClearDepth c depth s)
   \<and> all_or_nothing c s SET_TEX_ENV_COLOR T_uint16 (U16 (convertColor color))
       (setTexEnvColor c color s)
   \<and> all_or_nothing c s SET_CONF_REG1 T_ConfReg1
       (U16 (packConfReg1 (m_confReg1 (snd (setDepthMask c flag s)))))
       (setDepthMask c flag s)
   \<and> all_or_nothing c s SET_CONF_REG1 T_ConfReg1
       (U16 (packConfReg1 (m_confReg1 (snd (enableDepthTest' c flag s)))))
       (enableDepthTest' c flag s)
   \<and> all_or_nothing c s SET_CONF_REG1 T_ConfReg1
       (U16 (packConfReg1 (m_confReg1 (snd (setColorMask c mr mg mb ma s)))))
       (setColorMask c mr mg mb ma s)
   \<and> all_or_nothing c s SET_CONF_REG1 T_ConfReg1
       (U16 (packConfReg1 (m_confReg1 (snd (setDepthFunc c func s)))))
       (setDepthFunc c func s)
   \<and> all_or_nothing c s SET_CONF_REG1 T_ConfReg1
       (U16 (packConfReg1 (m_confReg1 (snd (setAlphaFunc c func ref s)))))
       (setAlphaFunc c func ref s)
   \<and> all_or_nothing c s SET_CONF_REG2 T_ConfReg2
       (U16 (packConfReg2 (m_confReg2 (snd (setTexEnv c target pname param s)))))
       (setTexEnv c target pname param s)
   \<and> all_or_nothing c s SET_CONF_REG2 T_ConfReg2
       (U16 (packConfReg2 (m_confReg2 (snd (setBlendFunc c sfactor dfactor s)))))
       (setBlendFunc c sfactor dfactor s)
   \<and> all_or_nothing c s SET_CONF_REG2 T_ConfReg2
       (U16 (packConfReg2 (m_confReg2 (snd (setTextureWrapModeS c mode s)))))
       (setTextureWrapModeS c mode s)
   \<and> all_or_nothing c s SET_CONF_REG2 T_ConfReg2
       (U16 (packConfReg2 (m_confReg2 (snd (setTextureWrapModeT c mode s)))))
       (setTextureWrapModeT c mode s)
   \<and> all_or_nothing c s (TEXTURE_STREAM_sized w) T_TextureStreamArg
       (Tex \<lparr>pixels = p, remainingPixels = uint w * uint h\<rparr>) (useTexture c p w h s)
   \<and> (\<forall>t res. rasterize c v0 st0 v1 st1 v2 st2 = Some t
         \<and> m_frontList s \<noteq> m_backList s
         \<and> drawTriangle c v0 v1 v2 st0 st1 st2 color s = Inr res
        \<longrightarrow> all_or_nothing c s (TRIANGLE_FULL c) T_RasterizedTriangle
              (Tri (t\<lparr>triangleStaticColor := convertColor color\<rparr>)) res)"
proof -
  have tex: "all_or_nothing c s (TEXTURE_STREAM_sized w) T_TextureStreamArg
       (Tex \<lparr>pixels = p, remainingPixels = uint w * uint h\<rparr>) (useTexture c p w h s)"
    by (auto simp: all_or_nothing_def useTexture_def appendStreamCommandBack_eq
          TEXTURE_STREAM_sized_def TEXTURE_STREAM_256x256_def TEXTURE_STREAM_128x128_def
          TEXTURE_STREAM_64x64_def TEXTURE_STREAM_32x32_def)
  have tri: "all_or_nothing c s (TRIANGLE_FULL c) T_RasterizedTriangle
              (Tri (t\<lparr>triangleStaticColor := convertColor color\<rparr>)) res"
    if r: "rasterize c v0 st0 v1 st1 v2 st2 = Some t" and d: "m_frontList s \<noteq> m_backList s"
      and res: "drawTriangle c v0 v1 v2 st0 st1 st2 color s = Inr res" for t res
  proof -
    let ?arg = "Tri (t\<lparr>triangleStaticColor := convertColor color\<rparr>)"
    let ?a = "appendStreamCommand c (DISPLAY_LIST_SIZE c) (backList s) (TRIANGLE_FULL c)
                T_RasterizedTriangle ?arg"
    let ?s1 = "set_list (m_backList s) (snd ?a) s"
    from r res obtain r' s' where
      u: "uploadDisplayList c ?s1 = Inr (r', s')" and e: "res = (fst ?a, s')"
      by (auto simp: drawTriangle_def split: prod.splits sum.splits)
    have "tick_frame ?s1 s'" using u by (rule uploadDisplayList_frame)
    moreover have "m_frontList ?s1 \<noteq> m_backList ?s1" using d by (simp add: set_list_def)
    ultimately have "backList s' = backList ?s1" by (rule tick_frame_backList)
    then have "backList s' = snd ?a" by simp
    with e show ?thesis
      by (simp add: all_or_nothing_def appendStreamCommand_eq)
  qed
  show ?thesis
    using tex tri
    by (simp add: appendStreamCommand_eq setClearColor_def setClearDepth_def
          setTexEnvColor_def setDepthMask_def enableDepthTest'_def setColorMask_def
          setDepthFunc_def setAlphaFunc_def setTexEnv_def setBlendFunc_def
          setTextureWrapModeS_def setTextureWrapModeT_def appendConfReg1_def
          appendConfReg2_def appendStreamCommandBack_all_or_nothing)
qed

theorem encoder_appends_all_or_nothing_witness:
  "fst (setClearDepth example_config 65535 example_state)
   \<and> backList (snd (setClearDepth example_config 65535 example_state))
       = appended example_config SET_DEPTH_BUFFER_CLEAR_DEPTH T_uint16 (U16 65535) empty_list
   \<and> (case drawTriangle example_config 10 50 30 () () () (Vec4i 255 128 16 15)
              example_state of
         Inl f \<Rightarrow> False
       | Inr res \<Rightarrow>
           fst res
           \<and> backList (snd res)
               = appended example_config (TRIANGLE_FULL example_config) T_RasterizedTriangle
                   (Tri \<lparr>triangleStaticColor = 0xF810, geometry = (10, 50)\<rparr>) empty_list)"
proof -
  let ?d = "drawTriangle example_config 10 50 30 () () () (Vec4i 255 128 16 15) example_state"
  note t = encoder_appends_all_or_nothing [where c = example_config and s = example_state
      and depth = 65535 and color = "Vec4i 255 128 16 15"
      and ?v0.0 = 10 and ?v1.0 = 50 and ?v2.0 = 30
      and ?st0.0 = "()" and ?st1.0 = "()" and ?st2.0 = "()"]
  have f: "fst (setClearDepth example_config 65535 example_state)"
    by code_simp
  have r: "rasterize example_config 10 () 50 () 30 ()
             = Some \<lparr>triangleStaticColor = 0, geometry = (10, 50)\<rparr>"
    by (simp add: example_config_def)
  have cc: "convertColor (Vec4i 255 128 16 15) = 0xF810"
    by code_simp
  have d: "case ?d of Inl f \<Rightarrow> False | Inr res \<Rightarrow> fst res"
    by code_simp
  then obtain res where res: "?d = Inr res" "fst res"
    by (cases ?d) auto
  from t [THEN conjunct2, THEN conjunct2, THEN conjunct2, THEN conjunct2, THEN conjunct2, THEN conjunct2, THEN conjunct2, THEN conjunct2, THEN conjunct2, THEN conjunct2, THEN conjunct2, THEN conjunct2, THEN conjunct2, THEN conjunct2, rule_format, of _ res] r res(1)
  have "all_or_nothing example_config example_state
      (TRIANGLE_FULL example_config) T_RasterizedTriangle
      (Tri \<lparr>triangleStaticColor = 0xF810, geometry = (10, 50)\<rparr>) res"
    by (simp add: cc)
  moreover from t [THEN conjunct2, THEN conjunct2, THEN conjunct1]
  have "all_or_nothing example_config example_state
      SET_DEPTH_BUFFER_CLEAR_DEPTH T_uint16 (U16 65535)
      (setClearDepth example_config 65535 example_state)" .
  ultimately show ?thesis
    using f res by (simp add: all_or_nothing_def)
qed

subsection \<open>Committing and drawing\<close>

text \<open>
  C1 (as amended): when the commit opcode does not fit in the back list, \<open>commit\<close>
  returns at once and the state it leaves is the old one with the back list cleared:
  write and read position 0, state \<open>FREE\<close>. No tick of the walker ran (the bus was not
  polled and nothing was handed to it), the list was not enqueued, the indices were not
  swapped, and the front list is untouched. \<open>commit\<close> returns \<^verbatim>\<open>void\<close>.
\<close>

theorem commit_abort_clears_back_list:
  assumes "\<not> write_pos (backList s) + sizeOf c T_SCT \<le> DISPLAY_LIST_SIZE c"
    and "m_frontList s \<noteq> m_backList s"
  shows "\<exists>s'. commit c s = Some (Inr ((), s'))
           \<and> s' = set_list (m_backList s) (dl_clear (backList s)) s
           \<and> write_pos (backList s') = 0 \<and> read_pos (backList s') = 0
           \<and> state (backList s') = FREE
           \<and> frontList s' = frontList s
           \<and> m_frontList s' = m_frontList s \<and> m_backList s' = m_backList s
           \<and> m_busConnector s' = m_busConnector s
           \<and> m_displayListUpload s' = m_displayListUpload s
           \<and> m_uploadIndexPosition s' = m_uploadIndexPosition s
           \<and> m_textureStreamArg s' = m_textureStreamArg s"
  using assms
  by (simp add: commit_def create_def set_list_def backList_def frontList_def dl_clear_def)

theorem commit_abort_clears_back_list_witness:
  "\<exists>s'. commit example_config full_state = Some (Inr ((), s'))
         \<and> write_pos (backList s') = 0 \<and> state (backList s') = FREE
         \<and> frontList s' = frontList full_state
         \<and> m_busConnector s' = m_busConnector full_state"
proof -
  have 1: "\<not> write_pos (backList full_state) + sizeOf example_config T_SCT
              \<le> DISPLAY_LIST_SIZE example_config"
    by code_simp
  have 2: "m_frontList full_state \<noteq> m_backList full_state"
    by code_simp
  from commit_abort_clears_back_list [OF 1 2] show ?thesis
    by blast
qed

text \<open>The claim as stated fails: an aborted \<open>commit\<close> returns the unit value, the same
  value a \<open>commit\<close> that succeeds returns; there is no false return.\<close>

theorem commit_abort_returns_void:
  "\<not> write_pos (backList full_state) + sizeOf example_config T_SCT
        \<le> DISPLAY_LIST_SIZE example_config
   \<and> map_option (map_sum id fst) (commit example_config full_state) = Some (Inr ())
   \<and> write_pos (backList example_state) + sizeOf example_config T_SCT
        \<le> DISPLAY_LIST_SIZE example_config
   \<and> map_option (map_sum id fst) (commit example_config example_state) = Some (Inr ())"
  by code_simp




subsection \<open>The cases of the fill loop\<close>

lemma ucast_down_of_nat:
  "(ucast (of_nat n :: 32 word) :: 16 word) = of_nat n"
  by (simp add: unsigned_of_nat word_of_nat_eq_iff min_def)

lemma unat_of_nat16:
  "n < 2 ^ 16 \<Longrightarrow> unat (of_nat n :: 16 word) = n"
  by (simp add: unat_of_nat)

lemma band_as_nat:
  fixes i :: "32 word" and L :: "16 word"
  shows "(ucast (i * ucast L) :: 16 word) = of_nat (unat i * unat L)"
    and "(ucast ((i + 1) * ucast L) :: 16 word) = of_nat ((unat i + 1) * unat L)"
proof -
  have uL: "(ucast L :: 32 word) = of_nat (unat L)"
    by simp
  have "i * ucast L = of_nat (unat i * unat L)"
    unfolding uL by simp
  then show "(ucast (i * ucast L) :: 16 word) = of_nat (unat i * unat L)"
    by (simp only: ucast_down_of_nat)
  have "(i + 1) * ucast L = of_nat ((unat i + 1) * unat L)"
    unfolding uL by (simp add: algebra_simps)
  then show "(ucast ((i + 1) * ucast L) :: 16 word) = of_nat ((unat i + 1) * unat L)"
    by (simp only: ucast_down_of_nat)
qed

lemma band_end:
  fixes i :: "32 word" and L :: "16 word"
  shows "(ucast ((i + 1) * ucast L) :: 16 word) = ucast (i * ucast L) + L"
proof -
  have "(of_nat ((unat i + 1) * unat L) :: 16 word) = of_nat (unat i * unat L) + of_nat (unat L)"
    by (simp add: algebra_simps)
  moreover have "(of_nat (unat L) :: 16 word) = L"
    by simp
  ultimately show ?thesis
    by (simp only: band_as_nat(2)) (simp only: band_as_nat(1))
qed

lemma band_nat:
  fixes i :: "32 word" and L :: "16 word"
  assumes "(unat i + 1) * unat L < 2 ^ 16"
  shows "unat (ucast (i * ucast L) :: 16 word) = unat i * unat L"
    and "unat (ucast ((i + 1) * ucast L) :: 16 word) = (unat i + 1) * unat L"
proof -
  from assms have "unat i * unat L < 2 ^ 16"
    by (simp add: algebra_simps)
  then show "unat (ucast (i * ucast L) :: 16 word) = unat i * unat L"
    by (simp only: band_as_nat(1) unat_of_nat16)
  from assms show "unat (ucast ((i + 1) * ucast L) :: 16 word) = (unat i + 1) * unat L"
    by (simp only: band_as_nat(2) unat_of_nat16)
qed

lemma band_mod:
  fixes i :: "32 word" and L :: "16 word"
  shows "unat (ucast (i * ucast L) :: 16 word) = (unat i * unat L) mod 2 ^ 16"
    and "unat (ucast ((i + 1) * ucast L) :: 16 word) = ((unat i + 1) * unat L) mod 2 ^ 16"
proof -
  show "unat (ucast (i * ucast L) :: 16 word) = (unat i * unat L) mod 2 ^ 16"
    by (simp only: band_as_nat(1) unat_of_nat) simp
  show "unat (ucast ((i + 1) * ucast L) :: 16 word) = ((unat i + 1) * unat L) mod 2 ^ 16"
    by (simp only: band_as_nat(2) unat_of_nat) simp
qed

lemma set_upload_simps [simp]:
  "m_displayListUpload (set_upload up s) = up"
  "m_uploadIndexPosition (set_upload up s) = m_uploadIndexPosition s"
  "m_textureStreamArg (set_upload up s) = m_textureStreamArg s"
  "m_busConnector (set_upload up s) = m_busConnector s"
  by (simp_all add: set_upload_def)

lemma set_list_simps [simp]:
  "m_displayListUpload (set_list i dl s) = m_displayListUpload s"
  "m_uploadIndexPosition (set_list i dl s) = m_uploadIndexPosition s"
  "m_textureStreamArg (set_list i dl s) = m_textureStreamArg s"
  "m_busConnector (set_list i dl s) = m_busConnector s"
  by (simp_all add: set_list_def)

lemma frontList_set_list [simp]:
  "i = m_frontList t \<Longrightarrow> frontList (set_list i fl t) = fl"
  by (simp add: frontList_def set_list_def)

lemma store_simps [simp]:
  "write_pos (store p v dl) = write_pos dl"
  "read_pos (store p v dl) = read_pos dl"
  "state (store p v dl) = state dl"
  "storage (store p v dl) = (storage dl)(p := v)"
  by (simp_all add: store_def)

lemma hasEnoughSpace_fits:
  assumes "hasEnoughSpace c capacity up"
  shows "write_pos up + sizeOf c T_SCT + sizeOf c T_RasterizedTriangle \<le> capacity"
  using assms sizeOf_SCT_pos [of c]
  by (simp add: hasEnoughSpace_def getFreeSpace_def)

text \<open>
  C2 (as amended): when the walker has taken a \<^verbatim>\<open>TRIANGLE_STREAM\<close> opcode from the front
  list and the triangle follows it, the pass copies the opcode to the upload list, takes
  the triangle and calls \<open>calcLineIncrement\<close> with the two bounds the code computes as
  \<^verbatim>\<open>uint16_t\<close>: \<open>i * LINE_RESOLUTION\<close> and \<open>(i + 1) * LINE_RESOLUTION\<close>, each cut
  to 16 bits (\<open>i\<close> the band index), the second being the first plus \<open>LINE_RESOLUTION\<close>
  in 16 bits. These are the bounds of the band \<open>[i * LINE_RESOLUTION, (i + 1) *
  LINE_RESOLUTION)\<close> when \<open>(i + 1) * LINE_RESOLUTION < 2 ^ 16\<close>; the claim holds under
  this condition only. When the call returns true, the opcode and the triangle it wrote
  are the two new records of the upload list; when it returns false, the write position
  of the upload list is the one before the pass. The records the upload list held before
  are unchanged either way, and the loop goes on.
\<close>

theorem triangle_kept_iff_in_band:
  assumes op: "op AND STREAM_COMMAND_OP_MASK = TRIANGLE_STREAM"
    and space: "hasEnoughSpace c HARDWARE_BUFFER_SIZE (m_displayListUpload s)"
    and avail: "read_pos (frontList s) + sizeOf c T_RasterizedTriangle
                  \<le> write_pos (frontList s)"
    and tri: "storage (frontList s) (read_pos (frontList s)) = Tri tin"
  shows "\<exists>s'. fillBody c op s = Inr (False, s')
     \<and> read_pos (frontList s') = read_pos (frontList s) + sizeOf c T_RasterizedTriangle
     \<and> (\<forall>p < write_pos (m_displayListUpload s).
           storage (m_displayListUpload s') p = storage (m_displayListUpload s) p)
     \<and> (let i = m_uploadIndexPosition s;
             L = LINE_RESOLUTION c;
             y_start = ucast (i * ucast L) :: 16 word;
             y_end = y_start + L;
             res = calcLineIncrement c tin y_start y_end;
             w = write_pos (m_displayListUpload s)
         in (if fst res
             then write_pos (m_displayListUpload s')
                    = w + sizeOf c T_SCT + sizeOf c T_RasterizedTriangle
                \<and> storage (m_displayListUpload s') w = Op op
                \<and> storage (m_displayListUpload s') (w + sizeOf c T_SCT) = Tri (snd res)
             else write_pos (m_displayListUpload s') = w)
            \<and> unat y_start = (unat i * unat L) mod 2 ^ 16
            \<and> unat y_end = ((unat i + 1) * unat L) mod 2 ^ 16
            \<and> ((unat i + 1) * unat L < 2 ^ 16 \<longrightarrow>
                 unat y_start = unat i * unat L \<and> unat y_end = (unat i + 1) * unat L))"
proof -
  let ?up = "m_displayListUpload s"
  let ?w = "write_pos ?up"
  let ?a = "sizeOf c T_SCT" and ?b = "sizeOf c T_RasterizedTriangle"
  let ?i = "m_uploadIndexPosition s" and ?L = "LINE_RESOLUTION c"
  let ?ys = "ucast (?i * ucast ?L) :: 16 word"
  let ?res = "calcLineIncrement c tin ?ys (?ys + ?L)"
  have a: "0 < ?a" by (rule sizeOf_SCT_pos)
  have f: "?w + ?a + ?b \<le> HARDWARE_BUFFER_SIZE"
    using space by (rule hasEnoughSpace_fits)
  have ye: "(ucast ((?i + 1) * ucast ?L) :: 16 word) = ?ys + ?L"
    by (rule band_end)
  let ?up1 = "store ?w (Op op) (?up\<lparr>write_pos := ?w + ?a\<rparr>)"
  let ?s1 = "set_upload ?up1 s"
  have c1: "create c HARDWARE_BUFFER_SIZE T_SCT ?up = (Some ?w, ?up\<lparr>write_pos := ?w + ?a\<rparr>)"
    using f by (simp add: create_def)
  have fb: "fillBody c op s = case_TRIANGLE_STREAM c ?s1"
    using op by (simp add: fillBody_def c1)
  let ?fl = "(frontList s)\<lparr>read_pos := read_pos (frontList s) + ?b\<rparr>"
  have g: "getNext c T_RasterizedTriangle (frontList s) = (Some (read_pos (frontList s)), ?fl)"
    using avail by (simp add: getNext_def)
  have c2: "create c HARDWARE_BUFFER_SIZE T_RasterizedTriangle ?up1
              = (Some (?w + ?a), ?up1\<lparr>write_pos := ?w + ?a + ?b\<rparr>)"
    using f by (simp add: create_def)
  let ?up3 = "store (?w + ?a) (Tri (snd ?res)) (?up1\<lparr>write_pos := ?w + ?a + ?b\<rparr>)"
  let ?s2 = "set_upload ?up3 (set_list (m_frontList s) ?fl ?s1)"
  let ?s3 = "set_upload (dl_remove c T_SCT (dl_remove c T_RasterizedTriangle ?up3)) ?s2"
  have ct: "case_TRIANGLE_STREAM c ?s1 = Inr (False, if fst ?res then ?s2 else ?s3)"
    using tri
    by (simp add: case_TRIANGLE_STREAM_def g c2 ye Let_def)
  have nat: "(unat ?i + 1) * unat ?L < 2 ^ 16 \<longrightarrow>
               unat ?ys = unat ?i * unat ?L \<and> unat (?ys + ?L) = (unat ?i + 1) * unat ?L"
    using band_nat [of ?i ?L] by (simp only: ye [symmetric]) simp
  have cut: "unat ?ys = (unat ?i * unat ?L) mod 2 ^ 16"
    "unat (?ys + ?L) = ((unat ?i + 1) * unat ?L) mod 2 ^ 16"
    using band_mod [of ?i ?L] by (simp_all only: ye [symmetric])
  show ?thesis
  proof (cases "fst ?res")
    case True
    with fb ct have "fillBody c op s = Inr (False, ?s2)" by simp
    moreover have "read_pos (frontList ?s2) = read_pos (frontList s) + ?b"
      by simp
    moreover have "\<forall>p < ?w. storage (m_displayListUpload ?s2) p = storage ?up p"
      by simp
    moreover have "write_pos (m_displayListUpload ?s2) = ?w + ?a + ?b"
      "storage (m_displayListUpload ?s2) ?w = Op op"
      "storage (m_displayListUpload ?s2) (?w + ?a) = Tri (snd ?res)"
      using a by simp_all
    ultimately show ?thesis
      using True nat cut by (intro exI [of _ ?s2]) (simp add: Let_def)
  next
    case False
    with fb ct have "fillBody c op s = Inr (False, ?s3)" by simp
    moreover have "read_pos (frontList ?s3) = read_pos (frontList s) + ?b"
      by simp
    moreover have "\<forall>p < ?w. storage (m_displayListUpload ?s3) p = storage ?up p"
      by (simp add: dl_remove_def)
    moreover have "write_pos (m_displayListUpload ?s3) = ?w"
      by (simp add: dl_remove_def)
    ultimately show ?thesis
      using False nat cut by (intro exI [of _ ?s3]) (simp add: Let_def)
  qed
qed

theorem triangle_kept_iff_in_band_witness:
  "(\<exists>s'. fillBody example_config (TRIANGLE_FULL example_config) (triangle_state 0)
            = Inr (False, s')
         \<and> write_pos (m_displayListUpload s') = 16
         \<and> storage (m_displayListUpload s') 0 = Op (TRIANGLE_FULL example_config)
         \<and> read_pos (frontList s') = 16)
   \<and> (\<exists>s'. fillBody example_config (TRIANGLE_FULL example_config) (triangle_state 1)
            = Inr (False, s')
         \<and> write_pos (m_displayListUpload s') = 0
         \<and> read_pos (frontList s') = 16)"
proof -
  let ?t = "\<lparr>triangleStaticColor = 0, geometry = (10 :: nat, 50 :: nat)\<rparr>"
  have op: "TRIANGLE_FULL example_config AND STREAM_COMMAND_OP_MASK = TRIANGLE_STREAM"
    by code_simp
  have space: "hasEnoughSpace example_config HARDWARE_BUFFER_SIZE
                 (m_displayListUpload (triangle_state i))" for i
    by code_simp
  have avail: "read_pos (frontList (triangle_state i))
                 + sizeOf example_config T_RasterizedTriangle
               \<le> write_pos (frontList (triangle_state i))" for i
    by code_simp
  have tri: "storage (frontList (triangle_state i)) (read_pos (frontList (triangle_state i)))
               = Tri ?t" for i
    by code_simp
  have r0: "calcLineIncrement example_config ?t
              (ucast (m_uploadIndexPosition (triangle_state 0)
                        * ucast (LINE_RESOLUTION example_config)))
              (ucast (m_uploadIndexPosition (triangle_state 0)
                        * ucast (LINE_RESOLUTION example_config))
               + LINE_RESOLUTION example_config) = (True, ?t)"
    by code_simp
  have r1: "calcLineIncrement example_config ?t
              (ucast (m_uploadIndexPosition (triangle_state 1)
                        * ucast (LINE_RESOLUTION example_config)))
              (ucast (m_uploadIndexPosition (triangle_state 1)
                        * ucast (LINE_RESOLUTION example_config))
               + LINE_RESOLUTION example_config) = (False, ?t)"
    by code_simp
  have w: "write_pos (m_displayListUpload (triangle_state i)) = 0"
    "read_pos (frontList (triangle_state i)) = 4" for i
    by code_simp+
  from triangle_kept_iff_in_band [OF op space avail tri, of 0]
  have "\<exists>s'. fillBody example_config (TRIANGLE_FULL example_config) (triangle_state 0)
            = Inr (False, s')
         \<and> write_pos (m_displayListUpload s') = 16
         \<and> storage (m_displayListUpload s') 0 = Op (TRIANGLE_FULL example_config)
         \<and> read_pos (frontList s') = 16"
    by (auto simp: Let_def r0 w)
  moreover from triangle_kept_iff_in_band [OF op space avail tri, of 1]
  have "\<exists>s'. fillBody example_config (TRIANGLE_FULL example_config) (triangle_state 1)
            = Inr (False, s')
         \<and> write_pos (m_displayListUpload s') = 0
         \<and> read_pos (frontList s') = 16"
    by (auto simp: Let_def r1 w)
  ultimately show ?thesis
    by simp
qed

text \<open>The claim as stated fails where \<open>(i + 1) * LINE_RESOLUTION\<close> does not fit in 16
  bits. With three bands of 32768 lines, band 2 is the lines from 65536 to 98303; the
  bounds the code hands to \<open>calcLineIncrement\<close> are 0 and 32768, those of band 0. A
  triangle on the lines 10 to 50, which are not in band 2, is kept in the upload list in
  the pass for band 2, as it is in the pass for band 0; in the pass for band 1 it is
  removed.\<close>

theorem triangle_band_bounds_wrap:
  "m_uploadIndexPosition (triangle_state 2) = 2
   \<and> unat (m_uploadIndexPosition (triangle_state 2)) < unat (DISPLAY_LINES wide_config)
   \<and> unat (m_uploadIndexPosition (triangle_state 2)) * unat (LINE_RESOLUTION wide_config)
       = 65536
   \<and> (unat (m_uploadIndexPosition (triangle_state 2)) + 1)
         * unat (LINE_RESOLUTION wide_config) = 98304
   \<and> (ucast (m_uploadIndexPosition (triangle_state 2)
               * ucast (LINE_RESOLUTION wide_config)) :: 16 word) = 0
   \<and> (ucast ((m_uploadIndexPosition (triangle_state 2) + 1)
               * ucast (LINE_RESOLUTION wide_config)) :: 16 word) = 32768
   \<and> storage (frontList (triangle_state 2)) (read_pos (frontList (triangle_state 2)))
       = Tri \<lparr>triangleStaticColor = 0, geometry = (10, 50)\<rparr>
   \<and> (50 :: nat) < unat (m_uploadIndexPosition (triangle_state 2))
                      * unat (LINE_RESOLUTION wide_config)
   \<and> map_sum id fst
        (fillBody wide_config (TRIANGLE_FULL wide_config) (triangle_state 2)) = Inr False
   \<and> map_sum id (write_pos \<circ> m_displayListUpload \<circ> snd)
        (fillBody wide_config (TRIANGLE_FULL wide_config) (triangle_state 2)) = Inr 16
   \<and> map_sum id ((\<lambda>up. (storage up 0, storage up 4)) \<circ> m_displayListUpload \<circ> snd)
        (fillBody wide_config (TRIANGLE_FULL wide_config) (triangle_state 2))
       = Inr (Op (TRIANGLE_FULL wide_config),
              Tri \<lparr>triangleStaticColor = 0, geometry = (10, 50)\<rparr>)
   \<and> map_sum id (write_pos \<circ> m_displayListUpload \<circ> snd)
        (fillBody wide_config (TRIANGLE_FULL wide_config) (triangle_state 1)) = Inr 0
   \<and> map_sum id (write_pos \<circ> m_displayListUpload \<circ> snd)
        (fillBody wide_config (TRIANGLE_FULL wide_config) (triangle_state 0)) = Inr 16"
  by (simp add: fillBody_def case_TRIANGLE_STREAM_def create_def getNext_def store_def
      dl_remove_def set_list_def set_upload_def frontList_def triangle_state_def
      example_state_def empty_list_def wide_config_def example_config_def TRIANGLE_FULL_def
      TRIANGLE_SIZE_ALIGNED_def sizeOf_def ALIGN_def round_up_def HARDWARE_BUFFER_SIZE_def
      STREAM_COMMAND_OP_MASK_def TRIANGLE_STREAM_def Let_def)

text \<open>
  C5: when the walker takes a \<^verbatim>\<open>TEXTURE_STREAM\<close> opcode and its argument \<open>new\<close> from the
  front list: if \<open>new\<close> ends where the cursor stands, the cursor is set to the end of
  \<open>new\<close> with no pixels remaining, the opcode that was copied is removed from the
  upload list, \<^verbatim>\<open>leaveLoop\<close> stays false and the fill loop goes on from there. In every
  other case the cursor becomes \<open>new\<close>, the opcode stays in the upload list,
  \<^verbatim>\<open>leaveLoop\<close> is set and the fill loop ends with that state.
\<close>

theorem texture_stream_dedup_or_leave:
  assumes space: "hasEnoughSpace c HARDWARE_BUFFER_SIZE (m_displayListUpload s)"
    and avail: "read_pos (frontList s) + sizeOf c T_SCT + sizeOf c T_TextureStreamArg
                  \<le> write_pos (frontList s)"
    and opc: "storage (frontList s) (read_pos (frontList s)) = Op op"
    and cls: "op AND STREAM_COMMAND_OP_MASK = TEXTURE_STREAM"
    and arg: "storage (frontList s) (read_pos (frontList s) + sizeOf c T_SCT) = Tex new"
  shows "\<exists>s'.
       read_pos (frontList s')
         = read_pos (frontList s) + sizeOf c T_SCT + sizeOf c T_TextureStreamArg
     \<and> (\<forall>p < write_pos (m_displayListUpload s).
           storage (m_displayListUpload s') p = storage (m_displayListUpload s) p)
     \<and> (if pixels new + remainingPixels new = pixels (m_textureStreamArg s)
         then m_textureStreamArg s'
                = \<lparr>pixels = pixels new + remainingPixels new, remainingPixels = 0\<rparr>
            \<and> write_pos (m_displayListUpload s') = write_pos (m_displayListUpload s)
            \<and> fillBody c op
                 (set_list (m_frontList s)
                    ((frontList s)\<lparr>read_pos := read_pos (frontList s) + sizeOf c T_SCT\<rparr>) s)
                 = Inr (False, s')
            \<and> fill c s = fill c s'
         else m_textureStreamArg s' = new
            \<and> write_pos (m_displayListUpload s')
                 = write_pos (m_displayListUpload s) + sizeOf c T_SCT
            \<and> storage (m_displayListUpload s') (write_pos (m_displayListUpload s)) = Op op
            \<and> fillBody c op
                 (set_list (m_frontList s)
                    ((frontList s)\<lparr>read_pos := read_pos (frontList s) + sizeOf c T_SCT\<rparr>) s)
                 = Inr (True, s')
            \<and> fill c s = Inr s')"
proof -
  let ?up = "m_displayListUpload s"
  let ?w = "write_pos ?up"
  let ?a = "sizeOf c T_SCT" and ?b = "sizeOf c T_TextureStreamArg"
  let ?r = "read_pos (frontList s)"
  let ?popped = "(frontList s)\<lparr>read_pos := ?r + ?a\<rparr>"
  let ?s0 = "set_list (m_frontList s) ?popped s"
  have a: "0 < ?a" by (rule sizeOf_SCT_pos)
  have f: "?w + ?a \<le> HARDWARE_BUFFER_SIZE"
    using hasEnoughSpace_fits [OF space] by simp
  have g0: "getNext c T_SCT (frontList s) = (Some ?r, ?popped)"
    using avail by (simp add: getNext_def)
  have st0: "storage ?popped ?r = Op op"
    using opc by simp
  have fill0: "fill c s =
      (case fillBody c op ?s0 of
         Inl f \<Rightarrow> Inl f
       | Inr (leaveLoop, s') \<Rightarrow> if leaveLoop then Inr s' else fill c s')"
    by (subst fill.simps) (simp add: space g0 st0 opc)
  let ?up1 = "store ?w (Op op) (?up\<lparr>write_pos := ?w + ?a\<rparr>)"
  let ?s1 = "set_upload ?up1 ?s0"
  have c1: "create c HARDWARE_BUFFER_SIZE T_SCT ?up = (Some ?w, ?up\<lparr>write_pos := ?w + ?a\<rparr>)"
    using f by (simp add: create_def)
  have ne: "TEXTURE_STREAM \<noteq> TRIANGLE_STREAM" "TEXTURE_STREAM \<noteq> FRAMEBUFFER_OP"
    "TEXTURE_STREAM \<noteq> NOP"
    by (simp_all add: TEXTURE_STREAM_def TRIANGLE_STREAM_def FRAMEBUFFER_OP_def NOP_def)
  have fb: "fillBody c op ?s0 = case_TEXTURE_STREAM c ?s1"
    using cls ne by (simp add: fillBody_def c1)
  let ?taken = "?popped\<lparr>read_pos := ?r + ?a + ?b\<rparr>"
  have g: "getNext c T_TextureStreamArg ?popped = (Some (?r + ?a), ?taken)"
    using avail by (simp add: getNext_def)
  let ?s2 = "(set_list (m_frontList s) ?taken ?s1)\<lparr>m_textureStreamArg := new\<rparr>"
  let ?s3 = "set_upload (dl_remove c T_SCT (m_displayListUpload ?s2))
               (?s2\<lparr>m_textureStreamArg :=
                     \<lparr>pixels = pixels new + remainingPixels new, remainingPixels = 0\<rparr>\<rparr>)"
  have ct: "case_TEXTURE_STREAM c ?s1 =
      (if pixels new + remainingPixels new = pixels (m_textureStreamArg s)
       then Inr (False, ?s3) else Inr (True, ?s2))"
    using arg by (simp add: case_TEXTURE_STREAM_def g Let_def)
  show ?thesis
  proof (cases "pixels new + remainingPixels new = pixels (m_textureStreamArg s)")
    case True
    with fb ct have b: "fillBody c op ?s0 = Inr (False, ?s3)" by simp
    with fill0 have "fill c s = fill c ?s3" by simp
    moreover have "read_pos (frontList ?s3) = ?r + ?a + ?b"
      by (simp add: frontList_def set_upload_def set_list_def)
    moreover have "\<forall>p < ?w. storage (m_displayListUpload ?s3) p = storage ?up p"
      by (simp add: dl_remove_def set_list_def)
    moreover have "write_pos (m_displayListUpload ?s3) = ?w"
      "m_textureStreamArg ?s3
         = \<lparr>pixels = pixels new + remainingPixels new, remainingPixels = 0\<rparr>"
      by (simp_all add: dl_remove_def set_list_def set_upload_def)
    ultimately show ?thesis
      using True b by (intro exI [of _ ?s3]) simp
  next
    case False
    with fb ct have b: "fillBody c op ?s0 = Inr (True, ?s2)" by simp
    with fill0 have "fill c s = Inr ?s2" by simp
    moreover have "read_pos (frontList ?s2) = ?r + ?a + ?b"
      by (simp add: frontList_def set_upload_def set_list_def)
    moreover have "\<forall>p < ?w. storage (m_displayListUpload ?s2) p = storage ?up p"
      by (simp add: set_list_def)
    moreover have "write_pos (m_displayListUpload ?s2) = ?w + ?a"
      "storage (m_displayListUpload ?s2) ?w = Op op"
      "m_textureStreamArg ?s2 = new"
      by (simp_all add: set_list_def set_upload_def)
    ultimately show ?thesis
      using False b by (intro exI [of _ ?s2]) simp
  qed
qed

theorem texture_stream_dedup_or_leave_witness:
  "(\<exists>s'. m_textureStreamArg s' = \<lparr>pixels = 5120, remainingPixels = 0\<rparr>
         \<and> write_pos (m_displayListUpload s') = 0
         \<and> fill example_config (texture_state \<lparr>pixels = 5120, remainingPixels = 0\<rparr>)
             = fill example_config s')
   \<and> (\<exists>s'. m_textureStreamArg s' = \<lparr>pixels = 4096, remainingPixels = 1024\<rparr>
         \<and> write_pos (m_displayListUpload s') = 4
         \<and> fill example_config (texture_state \<lparr>pixels = 0, remainingPixels = 0\<rparr>)
             = Inr s')"
proof -
  let ?new = "\<lparr>pixels = 4096, remainingPixels = 1024\<rparr>"
  have space: "hasEnoughSpace example_config HARDWARE_BUFFER_SIZE
                 (m_displayListUpload (texture_state cur))" for cur
    by (simp add: texture_state_def hasEnoughSpace_def getFreeSpace_def example_state_def
          empty_list_def HARDWARE_BUFFER_SIZE_def)
  have fl: "frontList (texture_state cur) =
      empty_list\<lparr>storage := (\<lambda>p. Unset)(0 := Op TEXTURE_STREAM_32x32, 4 := Tex ?new),
                  write_pos := 12, state := TRANSFERRING\<rparr>" for cur
    by (simp add: texture_state_def frontList_def set_list_def example_state_def)
  have avail: "read_pos (frontList (texture_state cur)) + sizeOf example_config T_SCT
                 + sizeOf example_config T_TextureStreamArg
               \<le> write_pos (frontList (texture_state cur))" for cur
    by (simp add: fl empty_list_def)
  have opc: "storage (frontList (texture_state cur)) (read_pos (frontList (texture_state cur)))
               = Op TEXTURE_STREAM_32x32" for cur
    by (simp add: fl empty_list_def)
  have cls: "TEXTURE_STREAM_32x32 AND STREAM_COMMAND_OP_MASK = TEXTURE_STREAM"
    by code_simp
  have arg: "storage (frontList (texture_state cur))
               (read_pos (frontList (texture_state cur)) + sizeOf example_config T_SCT)
               = Tex ?new" for cur
    by (simp add: fl empty_list_def)
  have cur: "m_textureStreamArg (texture_state cur) = cur"
    "write_pos (m_displayListUpload (texture_state cur)) = 0" for cur
    by (simp_all add: texture_state_def set_list_def example_state_def empty_list_def)
  from texture_stream_dedup_or_leave [OF space avail opc cls arg,
      of "\<lparr>pixels = 5120, remainingPixels = 0\<rparr>"]
  have "\<exists>s'. m_textureStreamArg s' = \<lparr>pixels = 5120, remainingPixels = 0\<rparr>
         \<and> write_pos (m_displayListUpload s') = 0
         \<and> fill example_config (texture_state \<lparr>pixels = 5120, remainingPixels = 0\<rparr>)
             = fill example_config s'"
    by (auto simp: cur)
  moreover
  from texture_stream_dedup_or_leave [OF space avail opc cls arg,
      of "\<lparr>pixels = 0, remainingPixels = 0\<rparr>"]
  have "\<exists>s'. m_textureStreamArg s' = ?new
         \<and> write_pos (m_displayListUpload s') = 4
         \<and> fill example_config (texture_state \<lparr>pixels = 0, remainingPixels = 0\<rparr>)
             = Inr s'"
    by (auto simp: cur)
  ultimately show ?thesis
    by simp
qed

subsection \<open>Draining the front list\<close>

text \<open>What any number of ticks leaves alone.\<close>

definition ticks_frame :: "'g Renderer \<Rightarrow> 'g Renderer \<Rightarrow> bool" where
  "ticks_frame s s' =
     (m_frontList s' = m_frontList s \<and> m_backList s' = m_backList s
      \<and> (\<forall>i. i \<noteq> m_frontList s \<longrightarrow> m_displayList s' i = m_displayList s i)
      \<and> storage (frontList s') = storage (frontList s))"

lemma ticks_frame_refl [simp]: "ticks_frame s s"
  by (simp add: ticks_frame_def)

lemma ticks_frame_trans: "ticks_frame s t \<Longrightarrow> ticks_frame t u \<Longrightarrow> ticks_frame s u"
  by (auto simp: ticks_frame_def)

lemma tick_frame_ticks_frame: "tick_frame s t \<Longrightarrow> ticks_frame s t"
  by (simp add: tick_frame_def ticks_frame_def)

lemma state_cases: "st \<noteq> QUEUED \<Longrightarrow> st \<noteq> TRANSFERRING \<Longrightarrow> st = FREE"
  by (cases st) simp_all

lemma started_state:
  "state (frontList (started c s)) =
     (if state (frontList s) = QUEUED then TRANSFERRING else state (frontList s))"
  by (simp add: started_def)

lemma polled_front [simp]: "frontList (polled s) = frontList s"
  by (simp add: polled_def frontList_def)

lemma finish_False:
  "finish s = (False, s') \<Longrightarrow> state (frontList s') = FREE"
  by (auto simp: finish_def dl_clear_def split: if_splits)

lemma uploadDisplayList_False:
  assumes "uploadDisplayList c s = Inr (False, s')"
  shows "state (frontList s') = FREE"
proof -
  consider (idle) "s' = polled s" "state (frontList (started c (polled s))) \<noteq> TRANSFERRING"
    | (band) s2 where "finish (flushed s2) = (False, s')"
    using assms unfolding uploadDisplayList_phases
    by (auto split: if_splits sum.splits)
  then show ?thesis
  proof cases
    case idle
    from idle(2) have "state (frontList s) \<noteq> QUEUED" "state (frontList s) \<noteq> TRANSFERRING"
      by (auto simp: started_state split: if_splits)
    then have "state (frontList s) = FREE" by (rule state_cases)
    with idle(1) show ?thesis by simp
  next
    case band
    then show ?thesis by (rule finish_False)
  qed
qed

definition drained :: "'g Renderer \<Rightarrow> fault + 'g Renderer \<Rightarrow> bool" where
  "drained s y =
     (case y of Inl f \<Rightarrow> True | Inr s' \<Rightarrow> state (frontList s') = FREE \<and> ticks_frame s s')"

lemma drain_result:
  fixes c :: "('v4, 'v2, 'g) config"
  assumes "drain c s = Some y"
  shows "drained s y"
  using assms
proof (rule drain.raw_induct [where P = "\<lambda>c s y. drained s y", rotated])
  fix drain' :: "('v4, 'v2, 'g) config \<Rightarrow> 'g Renderer \<Rightarrow> (fault + 'g Renderer) option"
    and c s y
  assume IH: "\<And>c s y. drain' c s = Some y \<Longrightarrow> drained s y"
    and body: "(case uploadDisplayList c s of
                  Inl f \<Rightarrow> Some (Inl f)
                | Inr rs \<Rightarrow> if fst rs then drain' c (snd rs) else Some (Inr (snd rs)))
               = Some y"
  show "drained s y"
  proof (cases "uploadDisplayList c s")
    case (Inl f)
    with body show ?thesis by (auto simp: drained_def)
  next
    case (Inr rs)
    obtain r t where rs: "rs = (r, t)" by (cases rs)
    with Inr have u: "uploadDisplayList c s = Inr (r, t)" by simp
    then have f: "ticks_frame s t"
      by (intro tick_frame_ticks_frame uploadDisplayList_frame)
    show ?thesis
    proof (cases r)
      case True
      with body u have "drain' c t = Some y" by simp
      from IH [OF this] f show ?thesis
        by (auto simp: drained_def split: sum.splits intro: ticks_frame_trans)
    next
      case False
      with body u have y: "y = Inr t" by simp
      from u False have "state (frontList t) = FREE"
        by (auto intro: uploadDisplayList_False)
      with y f show ?thesis by (simp add: drained_def)
    qed
  qed
qed

lemma texture_chunk_front [simp]: "frontList (texture_chunk s) = frontList s"
  by (simp add: texture_chunk_def frontList_def)

lemma flushed_front [simp]: "frontList (flushed s) = frontList s"
  by (simp add: flushed_def frontList_def)

lemma finish_state:
  "state (frontList s) = TRANSFERRING \<Longrightarrow> state (frontList (snd (finish s))) \<noteq> QUEUED"
  by (simp add: finish_def dl_clear_def resetGet_def frontList_def set_list_def)

lemma uploadDisplayList_leaves_QUEUED:
  assumes "uploadDisplayList c s = Inr (r, s')" and q: "state (frontList s) = QUEUED"
  shows "state (frontList s') = QUEUED \<longleftrightarrow> \<not> bus_clear s"
proof (cases "bus_clear s")
  case False
  with assms show ?thesis
    by (auto simp: uploadDisplayList_phases)
next
  case True
  let ?s1 = "started c (polled s)"
  have t: "state (frontList ?s1) = TRANSFERRING"
    using q by (simp add: started_state)
  consider (tex) "s' = texture_chunk ?s1"
    | (band) s2 where "fill c (set_upload (dl_clear (m_displayListUpload s)) ?s1) = Inr s2"
        "s' = snd (finish (flushed s2))"
    using assms(1) True t unfolding uploadDisplayList_phases
    by (auto split: if_splits sum.splits)
  then have "state (frontList s') \<noteq> QUEUED"
  proof cases
    case tex
    with t show ?thesis by simp
  next
    case band
    from band(1) have "walk_frame (set_upload (dl_clear (m_displayListUpload s)) ?s1) s2"
      by (rule fill_frame)
    then have "state (frontList s2) = TRANSFERRING"
      using t by (simp add: walk_frame_def)
    then have "state (frontList (flushed s2)) = TRANSFERRING" by simp
    with band(2) show ?thesis by (simp add: finish_state)
  qed
  with True show ?thesis by simp
qed

text \<open>
  C6 (as amended): when \<open>commit\<close> returns and its opcode did fit, the list that was the
  front list is the new back list and is \<open>FREE\<close>, and the list that was the back list is
  the new front list. That list was \<open>QUEUED\<close> after the swap, in the state \<open>s3\<close> in which
  \<open>commit\<close> runs its last tick; after that tick, when \<open>commit\<close> returns, it is still
  \<open>QUEUED\<close> exactly when the bus was not clear to send in that tick.
\<close>

theorem commit_swaps_lists:
  assumes ok: "commit c s = Some (Inr ((), s'))"
    and fit: "write_pos (backList s) + sizeOf c T_SCT \<le> DISPLAY_LIST_SIZE c"
    and idx: "m_frontList s = 0 \<and> m_backList s = 1 \<or> m_frontList s = 1 \<and> m_backList s = 0"
  shows "\<exists>s3 r. uploadDisplayList c s3 = Inr (r, s')
       \<and> m_frontList s3 = m_backList s \<and> m_backList s3 = m_frontList s
       \<and> state (frontList s3) = QUEUED \<and> state (backList s3) = FREE
       \<and> m_frontList s' = m_backList s \<and> m_backList s' = m_frontList s
       \<and> state (backList s') = FREE
       \<and> (state (frontList s') = QUEUED \<longleftrightarrow> \<not> bus_clear s3)"
proof -
  let ?w = "write_pos (backList s)"
  let ?dl = "store ?w (Op (FRAMEBUFFER_COMMIT OR FRAMEBUFFER_COLOR))
               ((backList s)\<lparr>write_pos := ?w + sizeOf c T_SCT\<rparr>)"
  let ?s0 = "set_list (m_backList s) ?dl s"
  have ne: "m_frontList s \<noteq> m_backList s" using idx by auto
  have cr: "create c (DISPLAY_LIST_SIZE c) T_SCT (backList s)
              = (Some ?w, (backList s)\<lparr>write_pos := ?w + sizeOf c T_SCT\<rparr>)"
    using fit by (simp add: create_def)
  from ok obtain s1 where d: "drain c ?s0 = Some (Inr s1)"
    by (auto simp: commit_def cr split: option.splits sum.splits)
  from ok d obtain bl where e: "enqueue (backList s1) = Inr bl"
    by (auto simp: commit_def cr split: sum.splits)
  let ?s2 = "set_list (m_backList s1) bl s1"
  let ?s3 = "if m_backList ?s2 = 0 then ?s2\<lparr>m_backList := 1, m_frontList := 0\<rparr>
             else ?s2\<lparr>m_backList := 0, m_frontList := 1\<rparr>"
  from ok d e obtain r where u: "uploadDisplayList c ?s3 = Inr (r, s')"
    by (auto simp: commit_def cr Let_def split: sum.splits prod.splits)
  from drain_result [OF d] have f1: "state (frontList s1) = FREE" and tf: "ticks_frame ?s0 s1"
    by (simp_all add: drained_def)
  from tf have i1: "m_frontList s1 = m_frontList s" "m_backList s1 = m_backList s"
    by (simp_all add: ticks_frame_def)
  from e have bl: "state bl = QUEUED"
    by (auto simp: enqueue_def split: if_splits)
  have i3: "m_frontList ?s3 = m_backList s" "m_backList ?s3 = m_frontList s"
    using idx i1 by (auto simp: set_list_def)
  have q3: "state (frontList ?s3) = QUEUED"
    using idx i1 bl by (auto simp: frontList_def set_list_def)
  have b3: "state (backList ?s3) = FREE"
    using idx i1 f1 by (auto simp: frontList_def backList_def set_list_def)
  from u have t: "tick_frame ?s3 s'" by (rule uploadDisplayList_frame)
  then have i': "m_frontList s' = m_backList s" "m_backList s' = m_frontList s"
    using i3 by (simp_all add: tick_frame_def)
  have "m_frontList ?s3 \<noteq> m_backList ?s3" using i3 ne by simp
  with t have "backList s' = backList ?s3" by (rule tick_frame_backList)
  with b3 have b': "state (backList s') = FREE" by simp
  from u q3 have "state (frontList s') = QUEUED \<longleftrightarrow> \<not> bus_clear ?s3"
    by (rule uploadDisplayList_leaves_QUEUED)
  with u i3 q3 b3 i' b' show ?thesis
    by blast
qed

theorem commit_swaps_lists_witness:
  "\<exists>s' s3 r. commit example_config busy_state = Some (Inr ((), s'))
     \<and> uploadDisplayList example_config s3 = Inr (r, s')
     \<and> state (frontList s3) = QUEUED \<and> state (backList s3) = FREE
     \<and> m_frontList s' = 1 \<and> m_backList s' = 0
     \<and> state (backList s') = FREE \<and> state (frontList s') = QUEUED \<and> \<not> bus_clear s3"
proof -
  have "case commit example_config busy_state of
          Some (Inr (u, s')) \<Rightarrow> state (frontList s') = QUEUED
        | _ \<Rightarrow> False"
    by code_simp
  then obtain s' where ok: "commit example_config busy_state = Some (Inr ((), s'))"
    and q: "state (frontList s') = QUEUED"
    by (auto split: option.splits sum.splits)
  have fit: "write_pos (backList busy_state) + sizeOf example_config T_SCT
               \<le> DISPLAY_LIST_SIZE example_config"
    by code_simp
  have idx: "m_frontList busy_state = 0 \<and> m_backList busy_state = 1
             \<or> m_frontList busy_state = 1 \<and> m_backList busy_state = 0"
    by code_simp
  have i: "m_frontList busy_state = 0" "m_backList busy_state = 1"
    by code_simp+
  from commit_swaps_lists [OF ok fit idx] q ok show ?thesis
    unfolding i by blast
qed

text \<open>The claim as stated fails: with a bus that is clear to send, the last tick of
  \<open>commit\<close> starts the transfer of the new front list, which is \<open>TRANSFERRING\<close> and not
  \<open>QUEUED\<close> when \<open>commit\<close> returns.\<close>

theorem commit_front_not_queued_on_return:
  "write_pos (backList example_state) + sizeOf example_config T_SCT
     \<le> DISPLAY_LIST_SIZE example_config
   \<and> map_option (map_sum id (state \<circ> frontList \<circ> snd)) (commit example_config example_state)
       = Some (Inr TRANSFERRING)
   \<and> map_option (map_sum id (state \<circ> backList \<circ> snd)) (commit example_config example_state)
       = Some (Inr FREE)
   \<and> map_option (map_sum id (m_frontList \<circ> snd)) (commit example_config example_state)
       = Some (Inr 1)
   \<and> map_option (map_sum id (bands \<circ> calls \<circ> m_busConnector \<circ> snd))
        (commit example_config example_state) = Some (Inr [1])"
  by code_simp

subsection \<open>The order of the bands\<close>

text \<open>A run of \<open>n\<close> ticks: the flags they returned, in order, and the last state.\<close>

fun ticks ::
  "('v4, 'v2, 'g) config \<Rightarrow> nat \<Rightarrow> 'g Renderer \<Rightarrow> fault + (bool list \<times> 'g Renderer)"
where
  "ticks c 0 s = Inr ([], s)"
| "ticks c (Suc n) s =
     (case uploadDisplayList c s of
        Inl f \<Rightarrow> Inl f
      | Inr (r, t) \<Rightarrow>
          (case ticks c n t of Inl f \<Rightarrow> Inl f | Inr (rs, u) \<Rightarrow> Inr (r # rs, u)))"

text \<open>Every band index is the one before it or, when that is not 0, one less.\<close>

fun descending :: "32 word list \<Rightarrow> bool" where
  "descending (a # b # bs) = ((b = a \<or> (a \<noteq> 0 \<and> b = a - 1)) \<and> descending (b # bs))"
| "descending bs = True"

text \<open>The band a tick works on: the topmost band when the front list is still queued,
  else the band of \<^verbatim>\<open>m_uploadIndexPosition\<close>.\<close>

definition current_band :: "('v4, 'v2, 'g) config \<Rightarrow> 'g Renderer \<Rightarrow> 32 word" where
  "current_band c s =
     (if state (frontList s) = QUEUED then ucast (DISPLAY_LINES c) - 1
      else m_uploadIndexPosition s)"

lemma bands_append: "bands (xs @ ys) = bands xs @ bands ys"
  by (induction xs rule: bands.induct) simp_all

lemma descending_snoc:
  "descending bs \<Longrightarrow> bs = [] \<or> j = last bs \<or> (last bs \<noteq> 0 \<and> j = last bs - 1)
     \<Longrightarrow> descending (bs @ [j])"
  by (induction bs rule: descending.induct) auto

text \<open>The tick that hands a band to the bus.\<close>

lemma band_tick:
  assumes u: "uploadDisplayList c s = Inr (r, t)"
    and clear: "bus_clear s" and st: "state (frontList s) \<noteq> FREE"
    and tex: "\<not> remainingPixels (m_textureStreamArg s) > 0"
  shows "\<exists>u. fill c (set_upload (dl_clear (m_displayListUpload s)) (started c (polled s))) = Inr u
     \<and> bands (calls (m_busConnector t)) = bands (calls (m_busConnector s)) @ [current_band c s]
     \<and> (if atEnd (frontList u)
         then (if current_band c s = 0
               then \<not> r \<and> state (frontList t) = FREE
                  \<and> read_pos (frontList t) = 0 \<and> write_pos (frontList t) = 0
               else r \<and> state (frontList t) = TRANSFERRING
                  \<and> m_uploadIndexPosition t = current_band c s - 1
                  \<and> read_pos (frontList t) = 0)
         else r \<and> state (frontList t) = TRANSFERRING
            \<and> m_uploadIndexPosition t = current_band c s
            \<and> read_pos (frontList t) = read_pos (frontList u))"
proof -
  let ?s1 = "started c (polled s)"
  let ?s1' = "set_upload (dl_clear (m_displayListUpload s)) ?s1"
  have t1: "state (frontList ?s1) = TRANSFERRING"
    using st by (cases "state (frontList s)") (simp_all add: started_state)
  from u clear t1 tex obtain s2 where f: "fill c ?s1' = Inr s2" and t: "(r, t) = finish (flushed s2)"
    unfolding uploadDisplayList_phases by (auto split: sum.splits)
  from f have w: "walk_frame ?s1' s2" by (rule fill_frame)
  have i1: "m_uploadIndexPosition ?s1 = current_band c s"
    by (simp add: started_def current_band_def polled_def set_list_def frontList_def)
  have b1: "m_busConnector ?s1' = (m_busConnector s)\<lparr>polls := Suc (polls (m_busConnector s))\<rparr>"
    by (simp add: started_def polled_def set_list_def)
  from w i1 have i2: "m_uploadIndexPosition s2 = current_band c s"
    by (simp add: walk_frame_def)
  from w t1 have st2: "state (frontList s2) = TRANSFERRING"
    by (simp add: walk_frame_def)
  from w b1 have "calls (m_busConnector s2) = calls (m_busConnector s)"
    by (simp add: walk_frame_def)
  then have c: "bands (calls (m_busConnector (flushed s2)))
                  = bands (calls (m_busConnector s)) @ [current_band c s]"
    by (simp add: flushed_def writeData_def startColorBufferTransfer_def bands_append i2)
  have i3: "m_uploadIndexPosition (flushed s2) = current_band c s"
    using i2 by (simp add: flushed_def)
  have cf: "m_busConnector (snd (finish (flushed s2))) = m_busConnector (flushed s2)"
    by (simp add: finish_def set_list_def)
  show ?thesis
  proof (intro exI [of _ s2] conjI)
    show "fill c ?s1' = Inr s2" by (rule f)
    show "bands (calls (m_busConnector t)) = bands (calls (m_busConnector s)) @ [current_band c s]"
      using t [symmetric] c cf by (metis snd_conv)
    show "if atEnd (frontList s2)
         then (if current_band c s = 0
               then \<not> r \<and> state (frontList t) = FREE
                  \<and> read_pos (frontList t) = 0 \<and> write_pos (frontList t) = 0
               else r \<and> state (frontList t) = TRANSFERRING
                  \<and> m_uploadIndexPosition t = current_band c s - 1
                  \<and> read_pos (frontList t) = 0)
         else r \<and> state (frontList t) = TRANSFERRING
            \<and> m_uploadIndexPosition t = current_band c s
            \<and> read_pos (frontList t) = read_pos (frontList s2)"
      using t i3 st2
      by (auto simp: finish_def dl_clear_def resetGet_def set_list_def frontList_def
            flushed_def split: if_splits)
  qed
qed

text \<open>The ticks that hand no band to the bus: the bus is busy, the front list is free,
  or a chunk of a texture is sent.\<close>

lemma other_tick:
  assumes u: "uploadDisplayList c s = Inr (r, t)"
    and o: "\<not> bus_clear s \<or> state (frontList s) = FREE
            \<or> remainingPixels (m_textureStreamArg s) > 0"
  shows "bands (calls (m_busConnector t)) = bands (calls (m_busConnector s))
     \<and> read_pos (frontList t) = read_pos (frontList s)
     \<and> write_pos (frontList t) = write_pos (frontList s)
     \<and> (if \<not> bus_clear s \<or> state (frontList s) = FREE
         then r = (\<not> bus_clear s) \<and> state (frontList t) = state (frontList s)
            \<and> m_uploadIndexPosition t = m_uploadIndexPosition s
         else r \<and> state (frontList t) = TRANSFERRING
            \<and> m_uploadIndexPosition t = current_band c s)"
proof -
  let ?s1 = "started c (polled s)"
  have p: "calls (m_busConnector (polled s)) = calls (m_busConnector s)"
    "m_uploadIndexPosition (polled s) = m_uploadIndexPosition s"
    by (simp_all add: polled_def)
  show ?thesis
  proof (cases "\<not> bus_clear s \<or> state (frontList s) = FREE")
    case True
    then have "state (frontList s) = FREE \<Longrightarrow> state (frontList ?s1) \<noteq> TRANSFERRING"
      by (simp add: started_state)
    with u True have "t = polled s" "r = (\<not> bus_clear s)"
      unfolding uploadDisplayList_phases by (auto split: if_splits)
    with True p show ?thesis by auto
  next
    case False
    with o have tex: "remainingPixels (m_textureStreamArg s) > 0" by simp
    from False have t1: "state (frontList ?s1) = TRANSFERRING"
      by (cases "state (frontList s)") (simp_all add: started_state)
    from u False t1 tex have t: "t = texture_chunk ?s1" and r: r
      unfolding uploadDisplayList_phases by auto
    have "calls (m_busConnector ?s1) = calls (m_busConnector s)"
      by (simp add: started_def polled_def set_list_def)
    then have "bands (calls (m_busConnector t)) = bands (calls (m_busConnector s))"
      unfolding t by (simp add: texture_chunk_def writeData_def bands_append)
    moreover have "m_uploadIndexPosition t = current_band c s"
      unfolding t
      by (simp add: texture_chunk_def started_def current_band_def polled_def set_list_def
            frontList_def)
    moreover have "read_pos (frontList t) = read_pos (frontList s)"
      "write_pos (frontList t) = write_pos (frontList s)"
      unfolding t by (simp_all add: started_def)
    ultimately show ?thesis
      using False r t t1 by simp
  qed
qed

text \<open>What holds of the bands \<open>bs\<close> handed over and the flags \<open>rs\<close> returned since the
  front list was queued.\<close>

definition frame_inv ::
  "('v4, 'v2, 'g) config \<Rightarrow> 32 word list \<Rightarrow> bool list \<Rightarrow> 'g Renderer \<Rightarrow> bool"
where
  "frame_inv c bs rs s =
     (descending bs \<and> (bs \<noteq> [] \<longrightarrow> hd bs = ucast (DISPLAY_LINES c) - 1)
      \<and> (case state (frontList s) of
            QUEUED \<Rightarrow> bs = [] \<and> False \<notin> set rs
          | TRANSFERRING \<Rightarrow>
              False \<notin> set rs
              \<and> (if bs = [] then m_uploadIndexPosition s = ucast (DISPLAY_LINES c) - 1
                  else m_uploadIndexPosition s = last bs
                     \<or> (last bs \<noteq> 0 \<and> m_uploadIndexPosition s = last bs - 1
                        \<and> read_pos (frontList s) = 0))
          | FREE \<Rightarrow>
              bs \<noteq> [] \<and> last bs = 0 \<and> read_pos (frontList s) = 0
              \<and> write_pos (frontList s) = 0 \<and> False \<in> set rs))"

lemma frame_inv_current_band:
  assumes "frame_inv c bs rs s" "state (frontList s) \<noteq> FREE"
  shows "if bs = [] then current_band c s = ucast (DISPLAY_LINES c) - 1
         else current_band c s = last bs
            \<or> (last bs \<noteq> 0 \<and> current_band c s = last bs - 1
               \<and> read_pos (frontList s) = 0)"
  using assms
  by (cases "state (frontList s)") (auto simp: frame_inv_def current_band_def)

lemma frame_inv_D:
  assumes "frame_inv c bs rs s"
  shows "descending bs" and "bs \<noteq> [] \<Longrightarrow> hd bs = ucast (DISPLAY_LINES c) - 1"
    and "state (frontList s) \<noteq> FREE \<Longrightarrow> False \<notin> set rs"
    and "state (frontList s) = FREE \<Longrightarrow> False \<in> set rs"
  using assms by (cases "state (frontList s)"; simp add: frame_inv_def)+

lemma frame_inv_same:
  assumes "frame_inv c bs rs s"
    and "state (frontList t) = state (frontList s)"
    and "m_uploadIndexPosition t = m_uploadIndexPosition s"
    and "read_pos (frontList t) = read_pos (frontList s)"
    and "write_pos (frontList t) = write_pos (frontList s)"
    and "state (frontList s) \<noteq> FREE \<Longrightarrow> r"
  shows "frame_inv c bs (rs @ [r]) t"
  using assms by (cases "state (frontList s)"; simp add: frame_inv_def)

lemma frame_inv_TRANSFERRING:
  assumes "descending bs" and "bs \<noteq> [] \<longrightarrow> hd bs = ucast (DISPLAY_LINES c) - 1"
    and "False \<notin> set rs" and "state (frontList t) = TRANSFERRING"
    and "if bs = [] then m_uploadIndexPosition t = ucast (DISPLAY_LINES c) - 1
         else m_uploadIndexPosition t = last bs
            \<or> (last bs \<noteq> 0 \<and> m_uploadIndexPosition t = last bs - 1
               \<and> read_pos (frontList t) = 0)"
  shows "frame_inv c bs rs t"
  using assms by (simp add: frame_inv_def)

lemma frame_inv_FREE:
  assumes "descending bs" and "bs \<noteq> [] \<longrightarrow> hd bs = ucast (DISPLAY_LINES c) - 1"
    and "state (frontList t) = FREE" and "bs \<noteq> []" and "last bs = 0"
    and "read_pos (frontList t) = 0" and "write_pos (frontList t) = 0" and "False \<in> set rs"
  shows "frame_inv c bs rs t"
  using assms by (simp add: frame_inv_def)

lemma frame_inv_tick:
  assumes inv: "frame_inv c bs rs s" and u: "uploadDisplayList c s = Inr (r, t)"
  shows "\<exists>new. bands (calls (m_busConnector t)) = bands (calls (m_busConnector s)) @ new
           \<and> frame_inv c (bs @ new) (rs @ [r]) t"
proof (cases "\<not> bus_clear s \<or> state (frontList s) = FREE
              \<or> remainingPixels (m_textureStreamArg s) > 0")
  case True
  note o = other_tick [OF u True]
  from o have same: "bands (calls (m_busConnector t)) = bands (calls (m_busConnector s))"
    and rp: "read_pos (frontList t) = read_pos (frontList s)"
    and wp: "write_pos (frontList t) = write_pos (frontList s)"
    by simp_all
  have "frame_inv c bs (rs @ [r]) t"
  proof (cases "\<not> bus_clear s \<or> state (frontList s) = FREE")
    case True
    with o have "r = (\<not> bus_clear s)" "state (frontList t) = state (frontList s)"
      "m_uploadIndexPosition t = m_uploadIndexPosition s"
      by simp_all
    moreover from this True have "state (frontList s) \<noteq> FREE \<Longrightarrow> r" by simp
    ultimately show ?thesis
      using inv rp wp by (intro frame_inv_same [of c bs rs s])
  next
    case False
    with o have t: "r" "state (frontList t) = TRANSFERRING"
      "m_uploadIndexPosition t = current_band c s"
      by simp_all
    from False have st: "state (frontList s) \<noteq> FREE" by simp
    note cb = frame_inv_current_band [OF inv st]
    have "False \<notin> set (rs @ [r])"
      using frame_inv_D(3) [OF inv st] t(1) by simp
    moreover have "if bs = [] then m_uploadIndexPosition t = ucast (DISPLAY_LINES c) - 1
         else m_uploadIndexPosition t = last bs
            \<or> (last bs \<noteq> 0 \<and> m_uploadIndexPosition t = last bs - 1
               \<and> read_pos (frontList t) = 0)"
      using cb unfolding t(3) rp .
    ultimately show ?thesis
      using frame_inv_D(1,2) [OF inv] t(2) by (intro frame_inv_TRANSFERRING) simp_all
  qed
  with same show ?thesis
    by (intro exI [of _ "[]"]) simp
next
  case False
  then have clear: "bus_clear s" and st: "state (frontList s) \<noteq> FREE"
    and tex: "\<not> remainingPixels (m_textureStreamArg s) > 0"
    by simp_all
  let ?j = "current_band c s"
  let ?bs = "bs @ [?j]"
  from band_tick [OF u clear st tex] obtain s2 where
    all: "fill c (set_upload (dl_clear (m_displayListUpload s)) (started c (polled s))) = Inr s2
     \<and> bands (calls (m_busConnector t)) = bands (calls (m_busConnector s)) @ [?j]
     \<and> (if atEnd (frontList s2)
         then (if ?j = 0
               then \<not> r \<and> state (frontList t) = FREE
                  \<and> read_pos (frontList t) = 0 \<and> write_pos (frontList t) = 0
               else r \<and> state (frontList t) = TRANSFERRING
                  \<and> m_uploadIndexPosition t = ?j - 1
                  \<and> read_pos (frontList t) = 0)
         else r \<and> state (frontList t) = TRANSFERRING
            \<and> m_uploadIndexPosition t = ?j
            \<and> read_pos (frontList t) = read_pos (frontList s2))" ..
  note b = all [THEN conjunct2, THEN conjunct1] and e = all [THEN conjunct2, THEN conjunct2]
  note cb = frame_inv_current_band [OF inv st]
  note d = frame_inv_D(1) [OF inv] and rs = frame_inv_D(3) [OF inv st]
  have d': "descending ?bs"
  proof (rule descending_snoc [OF d])
    show "bs = [] \<or> ?j = last bs \<or> (last bs \<noteq> 0 \<and> ?j = last bs - 1)"
      using cb by (cases "bs = []") auto
  qed
  have h': "?bs \<noteq> [] \<longrightarrow> hd ?bs = ucast (DISPLAY_LINES c) - 1"
  proof (cases "bs = []")
    case True
    with cb show ?thesis by simp
  next
    case False
    with frame_inv_D(2) [OF inv] show ?thesis by simp
  qed
  have "frame_inv c ?bs (rs @ [r]) t"
  proof (cases "atEnd (frontList s2) \<and> ?j = 0")
    case True
    with e have "\<not> r" "state (frontList t) = FREE" "read_pos (frontList t) = 0"
      "write_pos (frontList t) = 0"
      by simp_all
    with True d' h' show ?thesis
      by (intro frame_inv_FREE) simp_all
  next
    case False
    with e have r: r and tr: "state (frontList t) = TRANSFERRING"
      and i: "m_uploadIndexPosition t = ?j
              \<or> (?j \<noteq> 0 \<and> m_uploadIndexPosition t = ?j - 1 \<and> read_pos (frontList t) = 0)"
      by (auto split: if_splits)
    have "False \<notin> set (rs @ [r])"
      using rs r by simp
    moreover have "if ?bs = [] then m_uploadIndexPosition t = ucast (DISPLAY_LINES c) - 1
         else m_uploadIndexPosition t = last ?bs
            \<or> (last ?bs \<noteq> 0 \<and> m_uploadIndexPosition t = last ?bs - 1
               \<and> read_pos (frontList t) = 0)"
      using i by simp
    ultimately show ?thesis
      using d' h' tr by (intro frame_inv_TRANSFERRING)
  qed
  with b show ?thesis
    by blast
qed

lemma frame_inv_ticks:
  "frame_inv c bs rs0 s \<Longrightarrow> ticks c n s = Inr (rs, s') \<Longrightarrow>
     \<exists>new. bands (calls (m_busConnector s')) = bands (calls (m_busConnector s)) @ new
          \<and> frame_inv c (bs @ new) (rs0 @ rs) s'"
proof (induction n arbitrary: s bs rs0 rs)
  case 0
  then show ?case by (intro exI [of _ "[]"]) simp
next
  case (Suc n)
  from Suc.prems(2) obtain r t rs' where
    u: "uploadDisplayList c s = Inr (r, t)" and run: "ticks c n t = Inr (rs', s')"
    and rs: "rs = r # rs'"
    by (auto split: sum.splits prod.splits)
  from frame_inv_tick [OF Suc.prems(1) u] obtain new1 where
    1: "bands (calls (m_busConnector t)) = bands (calls (m_busConnector s)) @ new1"
    and 2: "frame_inv c (bs @ new1) (rs0 @ [r]) t"
    by blast
  from Suc.IH [OF 2 run] obtain new2 where
    3: "bands (calls (m_busConnector s')) = bands (calls (m_busConnector t)) @ new2"
    and 4: "frame_inv c ((bs @ new1) @ new2) ((rs0 @ [r]) @ rs') s'"
    by blast
  from 1 3 4 rs show ?case
    by (intro exI [of _ "new1 @ new2"]) simp
qed

text \<open>
  C3: take any run of ticks that starts with the front list \<open>QUEUED\<close>. The band indices
  handed to \<open>startColorBufferTransfer\<close> in the run begin with \<open>DISPLAY_LINES - 1\<close>, and
  each is the one before it or one less. While the front list is \<open>TRANSFERRING\<close> no tick
  has returned false, and \<^verbatim>\<open>m_uploadIndexPosition\<close> is the last band handed over or, with
  the read position back at 0, one less. Once the front list is \<open>FREE\<close> again, the last
  band handed over is 0, the front list is cleared and a tick has returned false.

  The second part is the single tick that hands over a band (bus clear, front list not
  free, no texture chunk pending): it hands over the current band; when the fill loop
  has left the front list at its end, the read position is set back to 0 and either the
  band was 0, the list is cleared and the tick returns false, or the index is decreased
  by one; when the list is not at its end, the index stays.
\<close>

theorem bands_count_down_to_zero:
  assumes q: "state (frontList s) = QUEUED" and run: "ticks c n s = Inr (rs, s')"
  shows
  "(\<exists>bs. bands (calls (m_busConnector s')) = bands (calls (m_busConnector s)) @ bs
      \<and> descending bs
      \<and> (bs \<noteq> [] \<longrightarrow> hd bs = ucast (DISPLAY_LINES c) - 1)
      \<and> (state (frontList s') = FREE \<longrightarrow>
            bs \<noteq> [] \<and> last bs = 0 \<and> read_pos (frontList s') = 0
            \<and> write_pos (frontList s') = 0 \<and> False \<in> set rs)
      \<and> (state (frontList s') \<noteq> FREE \<longrightarrow> False \<notin> set rs)
      \<and> (state (frontList s') = TRANSFERRING \<longrightarrow>
            (if bs = [] then m_uploadIndexPosition s' = ucast (DISPLAY_LINES c) - 1
             else m_uploadIndexPosition s' = last bs
                \<or> (last bs \<noteq> 0 \<and> m_uploadIndexPosition s' = last bs - 1
                   \<and> read_pos (frontList s') = 0))))
   \<and> (\<forall>t r t'.
         uploadDisplayList c t = Inr (r, t') \<and> bus_clear t \<and> state (frontList t) \<noteq> FREE
         \<and> \<not> remainingPixels (m_textureStreamArg t) > 0 \<longrightarrow>
         (\<exists>u. fill c (set_upload (dl_clear (m_displayListUpload t)) (started c (polled t)))
                = Inr u
            \<and> bands (calls (m_busConnector t'))
                = bands (calls (m_busConnector t)) @ [current_band c t]
            \<and> (if atEnd (frontList u)
                then (if current_band c t = 0
                      then \<not> r \<and> state (frontList t') = FREE
                         \<and> read_pos (frontList t') = 0 \<and> write_pos (frontList t') = 0
                      else r \<and> state (frontList t') = TRANSFERRING
                         \<and> m_uploadIndexPosition t' = current_band c t - 1
                         \<and> read_pos (frontList t') = 0)
                else r \<and> state (frontList t') = TRANSFERRING
                   \<and> m_uploadIndexPosition t' = current_band c t
                   \<and> read_pos (frontList t') = read_pos (frontList u))))"
proof (intro conjI allI impI)
  have "frame_inv c [] [] s"
    using q by (simp add: frame_inv_def)
  from frame_inv_ticks [OF this run] obtain bs where
    b: "bands (calls (m_busConnector s')) = bands (calls (m_busConnector s)) @ bs"
    and inv: "frame_inv c bs rs s'"
    by auto
  have "state (frontList s') = FREE \<longrightarrow>
            bs \<noteq> [] \<and> last bs = 0 \<and> read_pos (frontList s') = 0
            \<and> write_pos (frontList s') = 0 \<and> False \<in> set rs"
    using inv by (cases "state (frontList s')"; simp add: frame_inv_def)
  moreover have "state (frontList s') = TRANSFERRING \<longrightarrow>
            (if bs = [] then m_uploadIndexPosition s' = ucast (DISPLAY_LINES c) - 1
             else m_uploadIndexPosition s' = last bs
                \<or> (last bs \<noteq> 0 \<and> m_uploadIndexPosition s' = last bs - 1
                   \<and> read_pos (frontList s') = 0))"
    using inv by (cases "state (frontList s')"; simp add: frame_inv_def)
  moreover have "state (frontList s') \<noteq> FREE \<longrightarrow> False \<notin> set rs"
    using frame_inv_D(3) [OF inv] by blast
  moreover have "bs \<noteq> [] \<longrightarrow> hd bs = ucast (DISPLAY_LINES c) - 1"
    using frame_inv_D(2) [OF inv] by blast
  ultimately show "\<exists>bs. bands (calls (m_busConnector s')) = bands (calls (m_busConnector s)) @ bs
      \<and> descending bs
      \<and> (bs \<noteq> [] \<longrightarrow> hd bs = ucast (DISPLAY_LINES c) - 1)
      \<and> (state (frontList s') = FREE \<longrightarrow>
            bs \<noteq> [] \<and> last bs = 0 \<and> read_pos (frontList s') = 0
            \<and> write_pos (frontList s') = 0 \<and> False \<in> set rs)
      \<and> (state (frontList s') \<noteq> FREE \<longrightarrow> False \<notin> set rs)
      \<and> (state (frontList s') = TRANSFERRING \<longrightarrow>
            (if bs = [] then m_uploadIndexPosition s' = ucast (DISPLAY_LINES c) - 1
             else m_uploadIndexPosition s' = last bs
                \<or> (last bs \<noteq> 0 \<and> m_uploadIndexPosition s' = last bs - 1
                   \<and> read_pos (frontList s') = 0)))"
    using b frame_inv_D(1) [OF inv] by (intro exI [of _ bs] conjI)
next
  fix t r t'
  assume "uploadDisplayList c t = Inr (r, t') \<and> bus_clear t \<and> state (frontList t) \<noteq> FREE
         \<and> \<not> remainingPixels (m_textureStreamArg t) > 0"
  then have "uploadDisplayList c t = Inr (r, t')" "bus_clear t" "state (frontList t) \<noteq> FREE"
    "\<not> remainingPixels (m_textureStreamArg t) > 0"
    by simp_all
  then show "\<exists>u. fill c (set_upload (dl_clear (m_displayListUpload t)) (started c (polled t)))
                = Inr u
            \<and> bands (calls (m_busConnector t'))
                = bands (calls (m_busConnector t)) @ [current_band c t]
            \<and> (if atEnd (frontList u)
                then (if current_band c t = 0
                      then \<not> r \<and> state (frontList t') = FREE
                         \<and> read_pos (frontList t') = 0 \<and> write_pos (frontList t') = 0
                      else r \<and> state (frontList t') = TRANSFERRING
                         \<and> m_uploadIndexPosition t' = current_band c t - 1
                         \<and> read_pos (frontList t') = 0)
                else r \<and> state (frontList t') = TRANSFERRING
                   \<and> m_uploadIndexPosition t' = current_band c t
                   \<and> read_pos (frontList t') = read_pos (frontList u))"
    by (rule band_tick)
qed

theorem bands_count_down_to_zero_witness:
  "\<exists>rs s' bs. ticks example_config 2 queued_state = Inr (rs, s')
     \<and> rs = [True, False]
     \<and> bands (calls (m_busConnector s')) = bands (calls (m_busConnector queued_state)) @ bs
     \<and> bs = [1, 0] \<and> descending bs \<and> hd bs = 1 \<and> last bs = 0
     \<and> state (frontList s') = FREE \<and> write_pos (frontList s') = 0"
proof -
  have "case ticks example_config 2 queued_state of
          Inl f \<Rightarrow> False
        | Inr (rs, s') \<Rightarrow>
            rs = [True, False] \<and> state (frontList s') = FREE
            \<and> bands (calls (m_busConnector s')) = [1, 0]"
    by code_simp
  then obtain rs s' where run: "ticks example_config 2 queued_state = Inr (rs, s')"
    and rs: "rs = [True, False]" and f: "state (frontList s') = FREE"
    and b: "bands (calls (m_busConnector s')) = [1, 0]"
    by (auto split: sum.splits)
  have q: "state (frontList queued_state) = QUEUED"
    by code_simp
  have b0: "bands (calls (m_busConnector queued_state)) = []"
    by code_simp
  from bands_count_down_to_zero [OF q run, THEN conjunct1] f obtain bs where
    "bands (calls (m_busConnector s')) = bands (calls (m_busConnector queued_state)) @ bs"
    "descending bs" "bs \<noteq> []" "hd bs = ucast (DISPLAY_LINES example_config) - 1"
    "last bs = 0" "write_pos (frontList s') = 0"
    by auto
  moreover from this b b0 have "bs = [1, 0]" by simp
  ultimately show ?thesis
    using run rs f by (intro exI [of _ rs] exI [of _ s'] exI [of _ bs]) simp
qed

end
